theory Spec2Isabelle
  imports Main "HOL-Library.AList"
begin

section \<open>Python values, errors and list primitives\<close>

text \<open>
  The module \<^verbatim>\<open>viridispalettes.py\<close> works on untyped Python values: menu descriptions
  are nested lists of integers and strings, command arguments are strings. The fragment of
  Python values the module builds or inspects is the datatype below.
\<close>

datatype pyval = PInt int | PStr string | PList "pyval list"

text \<open>The exceptions the module's own statements can raise.\<close>

datatype error = IndexError | ValueError | TypeError | UnboundLocalError | RecursionError

text \<open>The backslash that starts a colour escape of the host's menu renderer.\<close>

definition bslash :: char where
  "bslash = CHR 0x5C"

text \<open>\<^verbatim>\<open>sep.join(xs)\<close> on a list of strings.\<close>

fun join :: "string \<Rightarrow> string list \<Rightarrow> string" where
  "join sep [] = []"
| "join sep [x] = x"
| "join sep (x # y # ys) = x @ sep @ join sep (y # ys)"

text \<open>\<^verbatim>\<open>s.replace(c, new)\<close> for a pattern \<open>c\<close> of one character: every occurrence is replaced.\<close>

definition replace_char :: "char \<Rightarrow> string \<Rightarrow> string \<Rightarrow> string" where
  "replace_char c new s = concat (map (\<lambda>x. if x = c then new else [x]) s)"

text \<open>
  \<^verbatim>\<open>xs.insert(i, x)\<close>: a negative index counts from the end, and an index beyond either
  end is clamped to that end; the element is placed before the element at the index.
\<close>

definition py_insert :: "int \<Rightarrow> 'a \<Rightarrow> 'a list \<Rightarrow> 'a list" where
  "py_insert i x xs =
     (let n = int (length xs);
          j = (if i < 0 then max 0 (i + n) else min i n)
      in take (nat j) xs @ [x] @ drop (nat j) xs)"

section \<open>Colourised menu labels\<close>

text \<open>
  \<^verbatim>\<open>_viridis8_rgb\<close>, the default palette of \<^verbatim>\<open>_colorize_text\<close>.
\<close>

definition viridis8_rgb :: "string list" where
  "viridis8_rgb = [''224'', ''134'', ''145'', ''154'', ''164'', ''373'', ''671'', ''881'']"

text \<open>
  The loop \<^verbatim>\<open>for i, col in enumerate(palette_list)\<close> of \<^verbatim>\<open>_colorize_text\<close>. The list
  \<open>tlist\<close> is \<^verbatim>\<open>text_list\<close>, whose element \<open>i\<close> is rewritten in place to the escape
  \<^verbatim>\<open>'\\%s%s' % (col, text_list[i])\<close>; an opening parenthesis gets the white code and ends
  the loop. Reading \<^verbatim>\<open>text_list[i]\<close> beyond the end raises \<^verbatim>\<open>IndexError\<close>.
\<close>

fun colorize_loop :: "nat \<Rightarrow> string list \<Rightarrow> string list \<Rightarrow> error + string list" where
  "colorize_loop i [] tlist = Inr tlist"
| "colorize_loop i (col # cols) tlist =
     (if length tlist \<le> i then Inl IndexError
      else if tlist ! i = ''('' then Inr (tlist[i := bslash # ''888'' @ tlist ! i])
      else colorize_loop (Suc i) cols (tlist[i := bslash # col @ tlist ! i]))"

definition colorize_text :: "string \<Rightarrow> string list \<Rightarrow> error + string" where
  "colorize_text text palette =
     (let text_list = map (\<lambda>c. [c]) text;
          palette_list = palette @ [''888''];
          palette_list = take (min (length palette_list) (length text_list)) palette_list
      in case colorize_loop 0 palette_list text_list of
           Inl e \<Rightarrow> Inl e
         | Inr tlist \<Rightarrow> Inr (concat tlist @ bslash # ''888''))"

text \<open>The marker that \<^verbatim>\<open>_colorize_text\<close> appends: white again.\<close>

definition reset_marker :: string where
  "reset_marker = bslash # ''888''"

text \<open>
  How many characters of \<open>text\<close> receive an escape prefix: the loop visits the first
  \<open>min (length palette + 1) (length text)\<close> characters and stops after the first opening
  parenthesis among them.
\<close>

definition prefixed_count :: "string list \<Rightarrow> string \<Rightarrow> nat" where
  "prefixed_count palette text =
     (let m = min (length palette + 1) (length text);
          pre = takeWhile (\<lambda>c. c \<noteq> CHR ''('') (take m text)
      in if length pre < m then length pre + 1 else m)"

text \<open>
  What the loop leaves in \<^verbatim>\<open>text_list\<close>, written as a recursion over the colour codes and
  the characters still to be visited, and the number of characters it prefixes. Both are
  used to reason about \<open>colorize_loop\<close>.
\<close>

fun escaped :: "string list \<Rightarrow> string \<Rightarrow> string list" where
  "escaped [] cs = map (\<lambda>c. [c]) cs"
| "escaped (col # cols) [] = []"
| "escaped (col # cols) (c # cs) =
     (if c = CHR ''('' then (bslash # ''888'' @ [c]) # map (\<lambda>c. [c]) cs
      else (bslash # col @ [c]) # escaped cols cs)"

fun npref :: "string list \<Rightarrow> string \<Rightarrow> nat" where
  "npref [] cs = 0"
| "npref (col # cols) [] = 0"
| "npref (col # cols) (c # cs) = (if c = CHR ''('' then 1 else Suc (npref cols cs))"

fun pref_len :: "string list \<Rightarrow> string \<Rightarrow> nat" where
  "pref_len [] cs = 0"
| "pref_len (col # cols) [] = 0"
| "pref_len (col # cols) (c # cs) =
     (if c = CHR ''('' then 4 else 1 + length col + pref_len cols cs)"

text \<open>The colour codes the loop runs over: \<^verbatim>\<open>palette_list\<close> after its truncation.\<close>

definition codes_for :: "string list \<Rightarrow> string \<Rightarrow> string list" where
  "codes_for palette text =
     take (min (length (palette @ [''888''])) (length text)) (palette @ [''888''])"

text \<open>
  The number of characters that the escape prefixes add to \<open>text\<close>: the first \<open>j\<close>
  characters, those before the first opening parenthesis among the visited ones, each get a
  backslash and their own code; if the loop stopped at a parenthesis, that character gets
  the four characters of the white code.
\<close>

definition prefix_chars :: "string list \<Rightarrow> string \<Rightarrow> nat" where
  "prefix_chars palette text =
     (let codes = palette @ [''888''];
          m = min (length codes) (length text);
          j = length (takeWhile (\<lambda>c. c \<noteq> CHR ''('') (take m text))
      in sum_list (map (\<lambda>col. 1 + length col) (take j codes)) + (if j < m then 4 else 0))"

section \<open>The host and the module's state\<close>

text \<open>
  The host's command object \<^verbatim>\<open>self_cmd\<close> is opaque to the module; it is only passed on.
\<close>

type_synonym ctx = nat

text \<open>
  Function objects are compared by identity. The slot \<^verbatim>\<open>cmd.spectrum\<close> holds either a
  command of the host (its number is its identity) or a closure \<^verbatim>\<open>spectrum_wrapper\<close>;
  every such closure reads the module global \<^verbatim>\<open>_original_spectrum\<close> when it is called, so
  all of them behave alike. The three menu slots hold a builder of the host or one of the
  module's patches.
\<close>

datatype spectrum_callable = HostSpectrum nat | SpectrumWrapper

datatype menu_callable = HostMenu nat | ByChainPatch | MolColorPatch | ColorAutoPatch

type_synonym kwargs = "(string \<times> pyval) list"

text \<open>
  The host's command is a black box: what is observed of a call that reaches it is the
  command's identity with the positional and keyword arguments it received.
\<close>

datatype invocation = Invocation nat "pyval list" kwargs

text \<open>
  What the module takes from outside: the table \<^verbatim>\<open>NEW_PALETTES\<close> of the module
  \<^verbatim>\<open>palettes_data\<close> (a dictionary, in insertion order), whether
  \<^verbatim>\<open>from pymol.menu import all_colors_list\<close> succeeds, the host's menu builders, the user
  property keys \<^verbatim>\<open>mc.props\<close> of a menu context, and Python's \<^verbatim>\<open>repr\<close> on strings.
\<close>

record env =
  NEW_PALETTES :: "(string \<times> string list) list"
  has_all_colors_list :: bool
  host_menu :: "nat \<Rightarrow> ctx \<Rightarrow> string \<Rightarrow> error + pyval list"
  props :: "ctx \<Rightarrow> string \<Rightarrow> string list"
  py_repr :: "string \<Rightarrow> string"

text \<open>
  The module globals \<^verbatim>\<open>_original_*\<close>, the host slots the module assigns, the attribute
  \<^verbatim>\<open>menu.has_viridis_menus\<close> (\<open>None\<close> while the attribute does not exist), the host's
  dictionary \<^verbatim>\<open>viewing.palette_colors_dict\<close> and the lines printed so far.
\<close>

record state =
  original_spectrum :: "spectrum_callable option"
  original_by_chain :: "menu_callable option"
  original_mol_color :: "menu_callable option"
  original_color_auto :: "menu_callable option"
  cmd_spectrum :: spectrum_callable
  menu_by_chain :: menu_callable
  menu_mol_color :: menu_callable
  menu_color_auto :: menu_callable
  has_viridis_menus :: "bool option"
  palette_colors_dict :: "string \<rightharpoonup> string"
  stdout :: "string list"

definition print :: "string \<Rightarrow> state \<Rightarrow> state" where
  "print line s = s\<lparr>stdout := stdout s @ [line]\<rparr>"

text \<open>
  The test \<^verbatim>\<open>hasattr(menu, 'has_viridis_menus') and menu.has_viridis_menus\<close> of
  \<^verbatim>\<open>add_viridis_menus\<close>, negated in \<^verbatim>\<open>remove_viridis_menus\<close>.
\<close>

definition menus_active :: "state \<Rightarrow> bool" where
  "menus_active s = (has_viridis_menus s = Some True)"

text \<open>Nothing captured and the menus not marked as patched.\<close>

definition unpatched :: "state \<Rightarrow> bool" where
  "unpatched s =
     (original_spectrum s = None \<and> original_by_chain s = None \<and>
      original_mol_color s = None \<and> original_color_auto s = None \<and> \<not> menus_active s)"

section \<open>The spectrum command\<close>

definition patch_spectrum :: "state \<Rightarrow> state" where
  "patch_spectrum s =
     (let s1 = (if original_spectrum s = None
                then s\<lparr>original_spectrum := Some (cmd_spectrum s)\<rparr> else s)
      in s1\<lparr>cmd_spectrum := SpectrumWrapper\<rparr>)"

text \<open>
  The closure \<^verbatim>\<open>spectrum_wrapper\<close>. \<open>call\<close> is the interpreter calling a function object;
  calling \<^verbatim>\<open>None\<close> raises \<^verbatim>\<open>TypeError\<close>. Assigning \<^verbatim>\<open>kwargs['palette']\<close> replaces the
  value of an existing key in place and appends a new key.
\<close>

definition spectrum_wrapper ::
  "(spectrum_callable \<Rightarrow> pyval list \<Rightarrow> kwargs \<Rightarrow> error + invocation) \<Rightarrow>
   state \<Rightarrow> pyval list \<Rightarrow> kwargs \<Rightarrow> error + invocation" where
  "spectrum_wrapper call s args kwargs =
     (let kwargs = (if length args < 2 \<and> ''palette'' \<notin> set (map fst kwargs)
                    then AList.update ''palette'' (PStr ''turbo'') kwargs else kwargs)
      in case original_spectrum s of
           None \<Rightarrow> Inl TypeError
         | Some f \<Rightarrow> call f args kwargs)"

definition unpatch_spectrum :: "state \<Rightarrow> state" where
  "unpatch_spectrum s =
     (case original_spectrum s of
        Some f \<Rightarrow> s\<lparr>cmd_spectrum := f, original_spectrum := None\<rparr>
      | None \<Rightarrow> s)"

text \<open>
  Calling what a spectrum slot holds. The first argument is the call depth the interpreter
  still allows; exceeding it raises \<^verbatim>\<open>RecursionError\<close>.
\<close>

primrec call_spectrum ::
  "nat \<Rightarrow> state \<Rightarrow> spectrum_callable \<Rightarrow> pyval list \<Rightarrow> kwargs \<Rightarrow> error + invocation" where
  "call_spectrum 0 s f args kwargs = Inl RecursionError"
| "call_spectrum (Suc n) s f args kwargs =
     (case f of
        HostSpectrum h \<Rightarrow> Inr (Invocation h args kwargs)
      | SpectrumWrapper \<Rightarrow> spectrum_wrapper (call_spectrum n s) s args kwargs)"

text \<open>
  The command \<^verbatim>\<open>viridis\<close>. \<^verbatim>\<open>args_list[1] = 'viridis'\<close> is an index assignment: on a list
  of one element it raises \<^verbatim>\<open>IndexError\<close>. The result of \<^verbatim>\<open>cmd.spectrum\<close> is dropped by
  the source; the model returns it as the effect of the call.
\<close>

definition viridis ::
  "(spectrum_callable \<Rightarrow> pyval list \<Rightarrow> kwargs \<Rightarrow> error + invocation) \<Rightarrow>
   state \<Rightarrow> pyval list \<Rightarrow> kwargs \<Rightarrow> error + invocation" where
  "viridis call s args kwargs =
     (if 1 \<le> length args then
        (if length args \<le> 1 then Inl IndexError
         else call (cmd_spectrum s) (args[1 := PStr ''viridis'']) kwargs)
      else call (cmd_spectrum s) args (AList.update ''palette'' (PStr ''viridis'') kwargs))"

section \<open>Installing the palettes\<close>

definition format_colors :: "string list \<Rightarrow> string" where
  "format_colors values = replace_char CHR ''#'' ''0x'' (join '' '' values)"

text \<open>The loop of \<^verbatim>\<open>add_palettes\<close> over \<^verbatim>\<open>NEW_PALETTES.items()\<close>.\<close>

fun store_palettes ::
  "(string \<times> string list) list \<Rightarrow> (string \<rightharpoonup> string) \<Rightarrow> (string \<rightharpoonup> string)" where
  "store_palettes [] d = d"
| "store_palettes ((pal_name, values) # rest) d =
     store_palettes rest (d(pal_name \<mapsto> format_colors values))"

definition add_palettes :: "(string \<times> string list) list \<Rightarrow> state \<Rightarrow> state" where
  "add_palettes table s =
     print (''`'' @ join ''`, `'' (map fst table) @ ''`'')
       (s\<lparr>palette_colors_dict := store_palettes table (palette_colors_dict s)\<rparr>)"

fun has_viridis_palettes :: "string list \<Rightarrow> (string \<rightharpoonup> string) \<Rightarrow> bool" where
  "has_viridis_palettes [] d = True"
| "has_viridis_palettes (k # ks) d = (if d k = None then False else has_viridis_palettes ks d)"

text \<open>
  The format of a palette as the specification words it: the tokens joined by single
  spaces, a leading \<^verbatim>\<open>#\<close> of each token translated to \<^verbatim>\<open>0x\<close>.
\<close>

fun translate_leading :: "string \<Rightarrow> string" where
  "translate_leading [] = []"
| "translate_leading (c # cs) = (if c = CHR ''#'' then ''0x'' @ cs else c # cs)"

definition format_colors_spec :: "string list \<Rightarrow> string" where
  "format_colors_spec values = join '' '' (map translate_leading values)"

section \<open>The menus\<close>

text \<open>
  The menu entries the module writes as list displays: \<^verbatim>\<open>[kind, label, command]\<close> and
  \<^verbatim>\<open>[kind, label, [entry, ...]]\<close>.
\<close>

abbreviation entry :: "int \<Rightarrow> string \<Rightarrow> string \<Rightarrow> pyval" where
  "entry kind label command \<equiv> PList [PInt kind, PStr label, PStr command]"

abbreviation submenu :: "int \<Rightarrow> string \<Rightarrow> pyval list \<Rightarrow> pyval" where
  "submenu kind label entries \<equiv> PList [PInt kind, PStr label, PList entries]"

text \<open>
  The three choices of \<^verbatim>\<open>for palette in ('viridis', 'blue white red', 'green red')\<close> for one
  user property, and the entry of one property key.
\<close>

definition property_palettes :: "env \<Rightarrow> string \<Rightarrow> string \<Rightarrow> pyval list" where
  \<open>property_palettes e key sele =
     map (\<lambda>palette. entry 1 palette
            (''cmd.spectrum("properties['' @ py_repr e key @ '']", "'' @ palette @ ''", "'' @ sele @ ''")''))
       [''viridis'', ''blue white red'', ''green red'']\<close>

definition property_entry :: "env \<Rightarrow> string \<Rightarrow> string \<Rightarrow> pyval" where
  "property_entry e sele key = submenu 1 key (entry 2 ''Palette'' '''' # property_palettes e key sele)"

definition viridis_menu :: "env \<Rightarrow> ctx \<Rightarrow> string \<Rightarrow> error + pyval list" where
  \<open>viridis_menu e self_cmd sele =
     (case colorize_text ''viridis'' viridis8_rgb of
        Inl err \<Rightarrow> Inl err
      | Inr viridis_col \<Rightarrow>
          Inr ([entry 2 ''Viridis:'' '''',
                entry 1 (viridis_col @ ''(elem C)'')
                  (''cmd.spectrum("count", "viridis", selection="('' @ sele @ '') & elem C")''),
                entry 1 (viridis_col @ ''(*/CA)'')
                  (''cmd.spectrum("count", "viridis", selection="('' @ sele @ '') & */CA")''),
                entry 1 viridis_col
                  (''cmd.spectrum("count", "viridis", selection="'' @ sele @ ''", byres=1)''),
                entry 0 '''' '''',
                entry 1 ''b-factors''
                  (''cmd.spectrum("b", "viridis", selection=("'' @ sele @ ''"), quiet=0)''),
                entry 1 ''b-factors(*/CA)''
                  (''cmd.spectrum("b", "viridis", selection="(('' @ sele @ '') & */CA)", quiet=0)''),
                entry 0 '''' '''',
                entry 1 ''area (molecular)''
                  (''util.color_by_area(("'' @ sele @ ''"), "molecular", palette="viridis")''),
                entry 1 ''area (solvent)''
                  (''util.color_by_area(("'' @ sele @ ''"), "solvent", palette="viridis")'')]
               @ [entry 0 '''' '''',
                  submenu 1 ''user properties''
                    (entry 2 ''User Properties:'' ''''
                       # map (property_entry e sele) (props e self_cmd sele))]))\<close>

text \<open>
  The patches call the captured original through \<open>call\<close>, the interpreter calling a
  function object. Each returns the empty list when its original is \<^verbatim>\<open>None\<close>.
\<close>

definition by_chain_patch ::
  "(menu_callable \<Rightarrow> ctx \<Rightarrow> string \<Rightarrow> error + pyval list) \<Rightarrow>
   state \<Rightarrow> ctx \<Rightarrow> string \<Rightarrow> error + pyval list" where
  \<open>by_chain_patch call s self_cmd sele =
     (case colorize_text ''by chain'' viridis8_rgb of Inl err \<Rightarrow> Inl err | Inr by_chain_col \<Rightarrow>
     (case colorize_text ''by segi '' viridis8_rgb of Inl err \<Rightarrow> Inl err | Inr by_segi_col \<Rightarrow>
     (case colorize_text ''chainbows'' viridis8_rgb of Inl err \<Rightarrow> Inl err | Inr chainbows_col \<Rightarrow>
     (case original_by_chain s of
        None \<Rightarrow> Inr []
      | Some f \<Rightarrow>
         (case call f self_cmd sele of
            Inl err \<Rightarrow> Inl err
          | Inr base \<Rightarrow>
              Inr (base @
                [entry 0 '''' '''',
                 entry 0 '''' '''',
                 entry 1 (by_chain_col @ ''(elem C)'')
                   (''util.color_chains("('' @ sele @ '' and elem C)", palette="viridis", _self=cmd)''),
                 entry 1 (by_chain_col @ ''(*/CA)'')
                   (''util.color_chains("('' @ sele @ '' and name CA)", palette="viridis", _self=cmd)''),
                 entry 1 by_chain_col
                   (''util.color_chains("('' @ sele @ '')", palette="viridis", _self=cmd)''),
                 entry 0 '''' '''',
                 entry 1 chainbows_col
                   (''util.chainbow("('' @ sele @ '')", palette="viridis", _self=cmd)''),
                 entry 0 '''' '''',
                 entry 1 (by_segi_col @ ''(elem C)'')
                   (''cmd.spectrum("segi", "viridis", "('' @ sele @ '') & elem C")''),
                 entry 1 by_segi_col
                   (''cmd.spectrum("segi", "viridis", "'' @ sele @ ''")'')]))))))\<close>

definition color_auto_patch ::
  "(menu_callable \<Rightarrow> ctx \<Rightarrow> string \<Rightarrow> error + pyval list) \<Rightarrow>
   state \<Rightarrow> ctx \<Rightarrow> string \<Rightarrow> error + pyval list" where
  \<open>color_auto_patch call s self_cmd sele =
     (case colorize_text ''by obj'' viridis8_rgb of Inl err \<Rightarrow> Inl err | Inr by_obj_col \<Rightarrow>
     (case colorize_text ''by obj(elem C)'' viridis8_rgb of Inl err \<Rightarrow> Inl err | Inr by_obj_c_col \<Rightarrow>
     (case colorize_text ''chainbows'' viridis8_rgb of Inl err \<Rightarrow> Inl err | Inr chainbows_col \<Rightarrow>
     (case original_color_auto s of
        None \<Rightarrow> Inr []
      | Some f \<Rightarrow>
         (case call f self_cmd sele of
            Inl err \<Rightarrow> Inl err
          | Inr base \<Rightarrow>
              Inr (base @
                [entry 0 '''' '''',
                 entry 1 by_obj_col
                   (''util.color_objs("('' @ sele @ '' and elem C)", palette="viridis", _self=cmd)''),
                 entry 1 by_obj_c_col
                   (''util.color_objs("('' @ sele @ '')", palette="viridis", _self=cmd)'')]))))))\<close>

text \<open>
  \<^verbatim>\<open>_, text, _ = item\<close>: a list or a string of exactly three elements unpacks, another
  length raises \<^verbatim>\<open>ValueError\<close>, an integer is not iterable.
\<close>

fun unpack3 :: "pyval \<Rightarrow> error + pyval \<times> pyval \<times> pyval" where
  "unpack3 (PList [a, b, c]) = Inr (a, b, c)"
| "unpack3 (PList _) = Inl ValueError"
| "unpack3 (PStr [a, b, c]) = Inr (PStr [a], PStr [b], PStr [c])"
| "unpack3 (PStr _) = Inl ValueError"
| "unpack3 (PInt _) = Inl TypeError"

text \<open>
  The search loop of \<^verbatim>\<open>_mol_color_patch\<close>: the index of the first item whose second
  component equals \<^verbatim>\<open>'auto'\<close>. \<open>None\<close> means the loop ended without assigning
  \<^verbatim>\<open>auto_menu_idx\<close>.
\<close>

fun find_auto :: "nat \<Rightarrow> pyval list \<Rightarrow> error + nat option" where
  "find_auto i [] = Inr None"
| "find_auto i (item # rest) =
     (case unpack3 item of
        Inl err \<Rightarrow> Inl err
      | Inr (_, text, _) \<Rightarrow> if text = PStr ''auto'' then Inr (Some i) else find_auto (Suc i) rest)"

text \<open>
  \<^verbatim>\<open>_mol_color_patch\<close> calls the original twice: once for the search, once for the list it
  changes. Reading the unassigned \<^verbatim>\<open>auto_menu_idx\<close> raises \<^verbatim>\<open>UnboundLocalError\<close>, before
  \<^verbatim>\<open>_viridis_menu\<close> is called. Entering the host's \<^verbatim>\<open>menu.menucontext\<close> is left out:
  the patch reads nothing from it.
\<close>

definition mol_color_patch ::
  "env \<Rightarrow> (menu_callable \<Rightarrow> ctx \<Rightarrow> string \<Rightarrow> error + pyval list) \<Rightarrow>
   state \<Rightarrow> ctx \<Rightarrow> string \<Rightarrow> error + pyval list" where
  "mol_color_patch e call s self_cmd sele =
     (case colorize_text ''viridis'' viridis8_rgb of Inl err \<Rightarrow> Inl err | Inr viridis_col \<Rightarrow>
     (case original_mol_color s of
        None \<Rightarrow> Inr []
      | Some f \<Rightarrow>
         (case call f self_cmd sele of Inl err \<Rightarrow> Inl err | Inr scanned \<Rightarrow>
         (case find_auto 0 scanned of Inl err \<Rightarrow> Inl err | Inr auto_menu_idx \<Rightarrow>
         (case call f self_cmd sele of Inl err \<Rightarrow> Inl err | Inr r \<Rightarrow>
         (case auto_menu_idx of
            None \<Rightarrow> Inl UnboundLocalError
          | Some i \<Rightarrow>
             (case viridis_menu e self_cmd sele of
                Inl err \<Rightarrow> Inl err
              | Inr vm \<Rightarrow> Inr (py_insert (int i - 1) (submenu 1 viridis_col vm) r))))))))"

text \<open>
  Calling what a menu slot holds, with the call depth the interpreter still allows.
\<close>

primrec call_menu ::
  "nat \<Rightarrow> env \<Rightarrow> state \<Rightarrow> menu_callable \<Rightarrow> ctx \<Rightarrow> string \<Rightarrow> error + pyval list" where
  "call_menu 0 e s f self_cmd sele = Inl RecursionError"
| "call_menu (Suc n) e s f self_cmd sele =
     (case f of
        HostMenu h \<Rightarrow> host_menu e h self_cmd sele
      | ByChainPatch \<Rightarrow> by_chain_patch (call_menu n e s) s self_cmd sele
      | MolColorPatch \<Rightarrow> mol_color_patch e (call_menu n e s) s self_cmd sele
      | ColorAutoPatch \<Rightarrow> color_auto_patch (call_menu n e s) s self_cmd sele)"

text \<open>A well-formed menu entry, and one with a given label.\<close>

fun is_entry :: "pyval \<Rightarrow> bool" where
  "is_entry (PList [kind, label, action]) = True"
| "is_entry _ = False"

fun has_label :: "string \<Rightarrow> pyval \<Rightarrow> bool" where
  "has_label l (PList [kind, label, action]) = (label = PStr l)"
| "has_label l _ = False"

section \<open>Adding and removing the menus\<close>

definition add_viridis_menus :: "env \<Rightarrow> state \<Rightarrow> state" where
  "add_viridis_menus e s =
     (if menus_active s then print ''Palette menus were already added!'' s
      else
        let s = (if \<not> has_viridis_palettes (map fst (NEW_PALETTES e)) (palette_colors_dict s)
                 then add_palettes (NEW_PALETTES e) (print ''Adding palettes...'' s) else s);
            s = patch_spectrum (print ''Changing default palette for spectrum to `turbo`'' s)
        in if \<not> has_all_colors_list e
           then print ''PyMOL version too old for palettes menus. Requires 1.6.0 or later.'' s
           else
             let s = (if original_by_chain s = None
                      then s\<lparr>original_by_chain := Some (menu_by_chain s)\<rparr> else s);
                 s = (if original_mol_color s = None
                      then s\<lparr>original_mol_color := Some (menu_mol_color s)\<rparr> else s);
                 s = (if original_color_auto s = None
                      then s\<lparr>original_color_auto := Some (menu_color_auto s)\<rparr> else s);
                 s = print ''Adding viridis to menus...'' s;
                 s = s\<lparr>menu_by_chain := ByChainPatch\<rparr>;
                 s = s\<lparr>menu_mol_color := MolColorPatch\<rparr>;
                 s = s\<lparr>menu_color_auto := ColorAutoPatch\<rparr>;
                 s = s\<lparr>has_viridis_menus := Some True\<rparr>
             in print ''Done!'' s)"

definition remove_viridis_menus :: "env \<Rightarrow> state \<Rightarrow> state" where
  "remove_viridis_menus e s =
     (let s = unpatch_spectrum (print ''Changing default palette for spectrum back to `rainbow`'' s)
      in if \<not> menus_active s then print ''Palette menus are not present!'' s
         else if \<not> has_all_colors_list e
         then print ''PyMOL version too old for palettes menus. Requires 1.6.0 or later.'' s
         else
           let s = print ''Removing viridis from menus...'' s;
               s = (case original_by_chain s of
                      Some f \<Rightarrow> s\<lparr>menu_by_chain := f, original_by_chain := None\<rparr>
                    | None \<Rightarrow> s);
               s = (case original_mol_color s of
                      Some f \<Rightarrow> s\<lparr>menu_mol_color := f, original_mol_color := None\<rparr>
                    | None \<Rightarrow> s);
               s = (case original_color_auto s of
                      Some f \<Rightarrow> s\<lparr>menu_color_auto := f, original_color_auto := None\<rparr>
                    | None \<Rightarrow> s);
               s = s\<lparr>has_viridis_menus := Some False\<rparr>
           in print ''Done!'' s)"

section \<open>A concrete host\<close>

text \<open>
  A small host on which the definitions can be run: two palettes of two colour stops
  each, a host recent enough for the menus, the builders 0 (by chain), 1 (molecule colour:
  a header, a separator and the entry \<^verbatim>\<open>auto\<close>), 2 (auto colours) and 3 (a molecule colour
  menu without \<^verbatim>\<open>auto\<close>), one user property, and \<^verbatim>\<open>repr\<close> as it is on a string
  without quotes or escapes.
\<close>

definition example_table :: "(string \<times> string list) list" where
  "example_table =
     [(''viridis'', [''#440154'', ''#FDE724'']), (''turbo'', [''#30123B'', ''#7A0403''])]"

definition example_host_menu :: "nat \<Rightarrow> ctx \<Rightarrow> string \<Rightarrow> error + pyval list" where
  "example_host_menu h self_cmd sele =
     (if h = 0 then Inr [PList [PStr ''original_by_chain'']]
      else if h = 1 then Inr [entry 2 ''Color:'' '''', entry 0 '''' '''', entry 1 ''auto'' '''']
      else if h = 2 then Inr [PList [PStr ''original_color_auto'']]
      else Inr [entry 2 ''Color:'' ''''])"

definition example_env :: env where
  "example_env =
     \<lparr>NEW_PALETTES = example_table,
      has_all_colors_list = True,
      host_menu = example_host_menu,
      props = (\<lambda>self_cmd sele. [''charge'']),
      py_repr = (\<lambda>key. [CHR 0x27] @ key @ [CHR 0x27])\<rparr>"

text \<open>
  A state before the module has patched anything; the registry already holds a palette of
  the user's under the name \<^verbatim>\<open>viridis\<close>.
\<close>

definition example_state :: state where
  "example_state =
     \<lparr>original_spectrum = None,
      original_by_chain = None,
      original_mol_color = None,
      original_color_auto = None,
      cmd_spectrum = HostSpectrum 0,
      menu_by_chain = HostMenu 0,
      menu_mol_color = HostMenu 1,
      menu_color_auto = HostMenu 2,
      has_viridis_menus = None,
      palette_colors_dict = [''viridis'' \<mapsto> ''custom''],
      stdout = []\<rparr>"

section \<open>Properties of the colourised labels\<close>

lemma colorize_loop_escaped:
  "length cols \<le> length rest \<Longrightarrow>
   colorize_loop (length pre) cols (pre @ map (\<lambda>c. [c]) rest) = Inr (pre @ escaped cols rest)"
proof (induction cols arbitrary: pre rest)
  case Nil
  then show ?case by simp
next
  case (Cons col cols)
  then obtain c cs where rest: "rest = c # cs" by (cases rest) auto
  with Cons.prems have len: "length cols \<le> length cs" by simp
  show ?case
  proof (cases "c = CHR ''(''")
    case True
    then show ?thesis by (simp add: rest nth_append)
  next
    case False
    have "colorize_loop (length (pre @ [bslash # col @ [c]])) cols
            ((pre @ [bslash # col @ [c]]) @ map (\<lambda>c. [c]) cs)
          = Inr ((pre @ [bslash # col @ [c]]) @ escaped cols cs)"
      using Cons.IH [OF len] by blast
    with False show ?thesis by (simp add: rest nth_append)
  qed
qed

lemma length_concat_single: "length (concat (map (\<lambda>c. [c]) cs)) = length cs"
  by (induction cs) auto

lemma length_concat_escaped:
  "length cols \<le> length cs \<Longrightarrow>
   length (concat (escaped cols cs)) = length cs + pref_len cols cs"
  by (induction cols cs rule: escaped.induct) (auto simp: length_concat_single)

lemma pref_len_takeWhile:
  "length cols \<le> length cs \<Longrightarrow>
   pref_len cols cs =
     sum_list (map (\<lambda>col. 1 + length col)
       (take (length (takeWhile (\<lambda>c. c \<noteq> CHR ''('') (take (length cols) cs))) cols))
     + (if length (takeWhile (\<lambda>c. c \<noteq> CHR ''('') (take (length cols) cs)) < length cols
        then 4 else 0)"
  by (induction cols cs rule: pref_len.induct) auto

lemma pref_len_three:
  "length cols \<le> length cs \<Longrightarrow> \<forall>col \<in> set cols. length col = 3 \<Longrightarrow>
   pref_len cols cs = 4 * npref cols cs"
  by (induction cols cs rule: pref_len.induct) auto

lemma npref_takeWhile:
  "length cols \<le> length cs \<Longrightarrow>
   npref cols cs =
     (if length (takeWhile (\<lambda>c. c \<noteq> CHR ''('') (take (length cols) cs)) < length cols
      then length (takeWhile (\<lambda>c. c \<noteq> CHR ''('') (take (length cols) cs)) + 1
      else length cols)"
  by (induction cols cs rule: npref.induct) auto

lemma length_codes_for: "length (codes_for palette text) \<le> length text"
  by (simp add: codes_for_def)

lemma colorize_text_escaped:
  "colorize_text text palette =
     Inr (concat (escaped (codes_for palette text) text) @ bslash # ''888'')"
  using colorize_loop_escaped [where cols = "codes_for palette text" and rest = "text" and pre = "[]"] length_codes_for [of palette "text"]
  by (simp add: colorize_text_def Let_def codes_for_def)

lemma colorize_text_total: "\<exists>x. colorize_text text palette = Inr x"
  by (simp add: colorize_text_escaped)

lemma length_codes_for_eq:
  "length (codes_for palette text) = min (Suc (length palette)) (length text)"
  by (simp add: codes_for_def)

lemma take_codes_for:
  "j \<le> min (Suc (length palette)) (length text) \<Longrightarrow>
   take j (codes_for palette text) = take j (palette @ [''888''])"
  unfolding codes_for_def take_take by (simp only: min_absorb1 length_append list.size add_Suc_right add_0_right)

lemma pref_len_codes_for: "pref_len (codes_for palette text) text = prefix_chars palette text"
proof -
  define m where "m = min (Suc (length palette)) (length text)"
  define j where "j = length (takeWhile (\<lambda>c. c \<noteq> CHR ''('') (take m text))"
  have jm: "j \<le> m"
    unfolding j_def by (rule order_trans [OF length_takeWhile_le]) (simp add: m_def)
  have "pref_len (codes_for palette text) text =
          sum_list (map (\<lambda>col. 1 + length col) (take j (codes_for palette text)))
          + (if j < m then 4 else 0)"
    using pref_len_takeWhile [where cols = "codes_for palette text" and cs = "text"] length_codes_for [of palette "text"]
    by (simp only: length_codes_for_eq m_def [symmetric] j_def [symmetric])
  also have "take j (codes_for palette text) = take j (palette @ [''888''])"
    using jm unfolding m_def by (rule take_codes_for)
  finally show ?thesis
    by (simp add: prefix_chars_def Let_def m_def j_def)
qed

lemma npref_codes_for: "npref (codes_for palette text) text = prefixed_count palette text"
  using npref_takeWhile [where cols = "codes_for palette text" and cs = "text"] length_codes_for [of palette "text"]
  by (simp add: prefixed_count_def Let_def length_codes_for_eq)

lemma colorize_text_len:
  "\<exists>x. colorize_text text palette = Inr x \<and>
        length x = length text + prefix_chars palette text + length reset_marker"
  using length_concat_escaped [where cols = "codes_for palette text" and cs = "text"] length_codes_for [of palette "text"]
  by (simp add: colorize_text_escaped pref_len_codes_for reset_marker_def)

lemma prefix_chars_three:
  assumes "\<forall>col \<in> set palette. length col = 3"
  shows "prefix_chars palette text = 4 * prefixed_count palette text"
proof -
  have "\<forall>col \<in> set (codes_for palette text). length col = 3"
    using assms by (auto simp: codes_for_def dest!: in_set_takeD)
  from pref_len_three [OF length_codes_for this]
  show ?thesis by (simp add: pref_len_codes_for npref_codes_for)
qed

section \<open>Properties of the palette installation\<close>

lemma replace_char_append:
  "replace_char c new (a @ b) = replace_char c new a @ replace_char c new b"
  by (simp add: replace_char_def)

lemma replace_char_absent: "c \<notin> set s \<Longrightarrow> replace_char c new s = s"
  by (induction s) (auto simp: replace_char_def)

lemma replace_char_join:
  "replace_char c new (join sep xs) = join (replace_char c new sep) (map (replace_char c new) xs)"
  by (induction sep xs rule: join.induct) (simp_all add: replace_char_append, simp add: replace_char_def)

lemma replace_hash_leading:
  "CHR ''#'' \<notin> set (tl tok) \<Longrightarrow> replace_char CHR ''#'' ''0x'' tok = translate_leading tok"
proof (cases tok)
  case Nil
  then show ?thesis by (simp add: replace_char_def)
next
  case (Cons c cs)
  assume "CHR ''#'' \<notin> set (tl tok)"
  with Cons have "replace_char CHR ''#'' ''0x'' cs = cs"
    by (simp add: replace_char_absent)
  then have "replace_char CHR ''#'' ''0x'' ([c] @ cs) = translate_leading (c # cs)"
    unfolding replace_char_append by (simp add: replace_char_def)
  with Cons show ?thesis by simp
qed

lemma format_colors_refines:
  assumes "\<forall>tok \<in> set vs. CHR ''#'' \<notin> set (tl tok)"
  shows "format_colors vs = format_colors_spec vs"
proof -
  have "map (replace_char CHR ''#'' ''0x'') vs = map translate_leading vs"
    using assms by (simp add: replace_hash_leading)
  moreover have "replace_char CHR ''#'' ''0x'' '' '' = '' ''"
    by (simp add: replace_char_def)
  ultimately show ?thesis
    unfolding format_colors_def format_colors_spec_def replace_char_join by (simp only:)
qed

lemma store_palettes_other:
  "P \<notin> set (map fst table) \<Longrightarrow> store_palettes table d P = d P"
  by (induction table arbitrary: d) auto

lemma store_palettes_stored:
  "distinct (map fst table) \<Longrightarrow> (P, vs) \<in> set table \<Longrightarrow>
   store_palettes table d P = Some (format_colors vs)"
proof (induction table arbitrary: d)
  case Nil
  then show ?case by simp
next
  case (Cons entry table)
  obtain n ws where entry: "entry = (n, ws)" by (cases entry)
  show ?case
  proof (cases "(P, vs) = entry")
    case True
    with Cons.prems entry have "P \<notin> set (map fst table)" by auto
    with True entry show ?thesis by (simp add: store_palettes_other)
  next
    case False
    with Cons.prems have "(P, vs) \<in> set table" "distinct (map fst table)" by auto
    with Cons.IH entry show ?thesis by simp
  qed
qed

lemma map_add_upd_left: "d(n \<mapsto> v) ++ m = d ++ ([n \<mapsto> v] ++ m)"
  by (rule ext) (simp add: map_add_def split: option.split)

lemma store_palettes_map_add:
  "store_palettes table d =
     d ++ map_of (rev (map (\<lambda>(n, vs). (n, format_colors vs)) table))"
proof (induction table arbitrary: d)
  case Nil
  then show ?case by simp
next
  case (Cons entry table)
  obtain n ws where entry: "entry = (n, ws)" by (cases entry)
  let ?f = "\<lambda>(n, vs). (n, format_colors vs)"
  have "store_palettes (entry # table) d = store_palettes table (d(n \<mapsto> format_colors ws))"
    using entry by simp
  also have "\<dots> = d(n \<mapsto> format_colors ws) ++ map_of (rev (map ?f table))"
    by (rule Cons.IH)
  also have "\<dots> = d ++ ([n \<mapsto> format_colors ws] ++ map_of (rev (map ?f table)))"
    by (rule map_add_upd_left)
  also have "[n \<mapsto> format_colors ws] ++ map_of (rev (map ?f table))
               = map_of (rev (map ?f (entry # table)))"
    using entry by simp
  finally show ?case .
qed

lemma map_add_twice: "d ++ m ++ m = d ++ m"
  by (rule ext) (simp add: map_add_def split: option.split)

lemma store_palettes_idem:
  "store_palettes table (store_palettes table d) = store_palettes table d"
  by (simp add: store_palettes_map_add [of table] map_add_twice)

lemma has_viridis_palettes_iff:
  "has_viridis_palettes ks d \<longleftrightarrow> set ks \<subseteq> dom d"
  by (induction ks) auto

lemma dom_store_palettes: "dom (store_palettes table d) = dom d \<union> set (map fst table)"
  by (force simp: store_palettes_map_add dom_map_of_conv_image_fst)

lemma palette_dict_add_palettes:
  "palette_colors_dict (add_palettes table s) = store_palettes table (palette_colors_dict s)"
  by (simp add: add_palettes_def print_def)

section \<open>Properties of patching and unpatching\<close>

text \<open>Printing and installing palettes touch no slot, no captured original and not the flag.\<close>

lemma original_spectrum_print [simp]: "original_spectrum (print l s) = original_spectrum s"
  and original_by_chain_print [simp]: "original_by_chain (print l s) = original_by_chain s"
  and original_mol_color_print [simp]: "original_mol_color (print l s) = original_mol_color s"
  and original_color_auto_print [simp]: "original_color_auto (print l s) = original_color_auto s"
  and cmd_spectrum_print [simp]: "cmd_spectrum (print l s) = cmd_spectrum s"
  and menu_by_chain_print [simp]: "menu_by_chain (print l s) = menu_by_chain s"
  and menu_mol_color_print [simp]: "menu_mol_color (print l s) = menu_mol_color s"
  and menu_color_auto_print [simp]: "menu_color_auto (print l s) = menu_color_auto s"
  and has_viridis_menus_print [simp]: "has_viridis_menus (print l s) = has_viridis_menus s"
  and palette_colors_dict_print [simp]: "palette_colors_dict (print l s) = palette_colors_dict s"
  by (simp_all add: print_def)

lemma original_spectrum_add_palettes [simp]:
    "original_spectrum (add_palettes t s) = original_spectrum s"
  and original_by_chain_add_palettes [simp]:
    "original_by_chain (add_palettes t s) = original_by_chain s"
  and original_mol_color_add_palettes [simp]:
    "original_mol_color (add_palettes t s) = original_mol_color s"
  and original_color_auto_add_palettes [simp]:
    "original_color_auto (add_palettes t s) = original_color_auto s"
  and cmd_spectrum_add_palettes [simp]: "cmd_spectrum (add_palettes t s) = cmd_spectrum s"
  and menu_by_chain_add_palettes [simp]: "menu_by_chain (add_palettes t s) = menu_by_chain s"
  and menu_mol_color_add_palettes [simp]: "menu_mol_color (add_palettes t s) = menu_mol_color s"
  and menu_color_auto_add_palettes [simp]:
    "menu_color_auto (add_palettes t s) = menu_color_auto s"
  and has_viridis_menus_add_palettes [simp]:
    "has_viridis_menus (add_palettes t s) = has_viridis_menus s"
  by (simp_all add: add_palettes_def)

lemma palettes_step_fields [simp]:
  "original_spectrum (if c then add_palettes t (print l s) else s) = original_spectrum s"
  "original_by_chain (if c then add_palettes t (print l s) else s) = original_by_chain s"
  "original_mol_color (if c then add_palettes t (print l s) else s) = original_mol_color s"
  "original_color_auto (if c then add_palettes t (print l s) else s) = original_color_auto s"
  "cmd_spectrum (if c then add_palettes t (print l s) else s) = cmd_spectrum s"
  "menu_by_chain (if c then add_palettes t (print l s) else s) = menu_by_chain s"
  "menu_mol_color (if c then add_palettes t (print l s) else s) = menu_mol_color s"
  "menu_color_auto (if c then add_palettes t (print l s) else s) = menu_color_auto s"
  "has_viridis_menus (if c then add_palettes t (print l s) else s) = has_viridis_menus s"
  by simp_all

lemma patch_spectrum_fields [simp]:
  "original_spectrum (patch_spectrum s) =
     (case original_spectrum s of None \<Rightarrow> Some (cmd_spectrum s) | Some f \<Rightarrow> Some f)"
  "cmd_spectrum (patch_spectrum s) = SpectrumWrapper"
  "original_by_chain (patch_spectrum s) = original_by_chain s"
  "original_mol_color (patch_spectrum s) = original_mol_color s"
  "original_color_auto (patch_spectrum s) = original_color_auto s"
  "menu_by_chain (patch_spectrum s) = menu_by_chain s"
  "menu_mol_color (patch_spectrum s) = menu_mol_color s"
  "menu_color_auto (patch_spectrum s) = menu_color_auto s"
  "has_viridis_menus (patch_spectrum s) = has_viridis_menus s"
  by (simp_all add: patch_spectrum_def Let_def split: option.split)

lemma unpatch_spectrum_fields [simp]:
  "original_spectrum (unpatch_spectrum s) = None"
  "cmd_spectrum (unpatch_spectrum s) =
     (case original_spectrum s of None \<Rightarrow> cmd_spectrum s | Some f \<Rightarrow> f)"
  "original_by_chain (unpatch_spectrum s) = original_by_chain s"
  "original_mol_color (unpatch_spectrum s) = original_mol_color s"
  "original_color_auto (unpatch_spectrum s) = original_color_auto s"
  "menu_by_chain (unpatch_spectrum s) = menu_by_chain s"
  "menu_mol_color (unpatch_spectrum s) = menu_mol_color s"
  "menu_color_auto (unpatch_spectrum s) = menu_color_auto s"
  "has_viridis_menus (unpatch_spectrum s) = has_viridis_menus s"
  by (simp_all add: unpatch_spectrum_def split: option.split)

text \<open>The fields of the state after add_viridis_menus.\<close>

lemma add_viridis_menus_active:
  "menus_active s \<Longrightarrow> add_viridis_menus e s = print ''Palette menus were already added!'' s"
  by (simp add: add_viridis_menus_def)

lemma add_viridis_menus_fields:
  assumes "\<not> menus_active s"
  shows "original_spectrum (add_viridis_menus e s) =
           (case original_spectrum s of None \<Rightarrow> Some (cmd_spectrum s) | Some f \<Rightarrow> Some f)"
    and "cmd_spectrum (add_viridis_menus e s) = SpectrumWrapper"
    and "original_by_chain (add_viridis_menus e s) =
           (if has_all_colors_list e
            then (case original_by_chain s of None \<Rightarrow> Some (menu_by_chain s) | Some f \<Rightarrow> Some f)
            else original_by_chain s)"
    and "original_mol_color (add_viridis_menus e s) =
           (if has_all_colors_list e
            then (case original_mol_color s of None \<Rightarrow> Some (menu_mol_color s) | Some f \<Rightarrow> Some f)
            else original_mol_color s)"
    and "original_color_auto (add_viridis_menus e s) =
           (if has_all_colors_list e
            then (case original_color_auto s of None \<Rightarrow> Some (menu_color_auto s) | Some f \<Rightarrow> Some f)
            else original_color_auto s)"
    and "menu_by_chain (add_viridis_menus e s) =
           (if has_all_colors_list e then ByChainPatch else menu_by_chain s)"
    and "menu_mol_color (add_viridis_menus e s) =
           (if has_all_colors_list e then MolColorPatch else menu_mol_color s)"
    and "menu_color_auto (add_viridis_menus e s) =
           (if has_all_colors_list e then ColorAutoPatch else menu_color_auto s)"
    and "has_viridis_menus (add_viridis_menus e s) =
           (if has_all_colors_list e then Some True else has_viridis_menus s)"
  using assms
  by (simp_all add: add_viridis_menus_def Let_def split: option.split)


lemma remove_viridis_menus_fields:
  shows "original_spectrum (remove_viridis_menus e s) = None"
    and "cmd_spectrum (remove_viridis_menus e s) =
           (case original_spectrum s of None \<Rightarrow> cmd_spectrum s | Some f \<Rightarrow> f)"
    and "menu_by_chain (remove_viridis_menus e s) =
           (if menus_active s \<and> has_all_colors_list e
            then (case original_by_chain s of None \<Rightarrow> menu_by_chain s | Some f \<Rightarrow> f)
            else menu_by_chain s)"
    and "menu_mol_color (remove_viridis_menus e s) =
           (if menus_active s \<and> has_all_colors_list e
            then (case original_mol_color s of None \<Rightarrow> menu_mol_color s | Some f \<Rightarrow> f)
            else menu_mol_color s)"
    and "menu_color_auto (remove_viridis_menus e s) =
           (if menus_active s \<and> has_all_colors_list e
            then (case original_color_auto s of None \<Rightarrow> menu_color_auto s | Some f \<Rightarrow> f)
            else menu_color_auto s)"
    and "original_by_chain (remove_viridis_menus e s) =
           (if menus_active s \<and> has_all_colors_list e then None else original_by_chain s)"
    and "original_mol_color (remove_viridis_menus e s) =
           (if menus_active s \<and> has_all_colors_list e then None else original_mol_color s)"
    and "original_color_auto (remove_viridis_menus e s) =
           (if menus_active s \<and> has_all_colors_list e then None else original_color_auto s)"
    and "has_viridis_menus (remove_viridis_menus e s) =
           (if menus_active s \<and> has_all_colors_list e then Some False else has_viridis_menus s)"
  by (simp_all add: remove_viridis_menus_def Let_def menus_active_def split: option.split)

lemma keep_captured_idem:
  "(case (case x of None \<Rightarrow> Some y | Some f \<Rightarrow> Some f) of None \<Rightarrow> Some z | Some f \<Rightarrow> Some f)
     = (case x of None \<Rightarrow> Some y | Some f \<Rightarrow> Some f)"
  by (cases x) simp_all

lemma add_viridis_menus_originals_kept:
  "original_spectrum s = Some f \<Longrightarrow> original_spectrum (add_viridis_menus e s) = Some f"
  "original_by_chain s = Some g \<Longrightarrow> original_by_chain (add_viridis_menus e s) = Some g"
  "original_mol_color s = Some g \<Longrightarrow> original_mol_color (add_viridis_menus e s) = Some g"
  "original_color_auto s = Some g \<Longrightarrow> original_color_auto (add_viridis_menus e s) = Some g"
  by (cases "menus_active s"; simp add: add_viridis_menus_active add_viridis_menus_fields)+

lemma menus_active_add_viridis_menus:
  "menus_active (add_viridis_menus e s) = (menus_active s \<or> has_all_colors_list e)"
  by (cases "menus_active s")
     (simp_all add: add_viridis_menus_active add_viridis_menus_fields menus_active_def)

lemma add_viridis_menus_twice_originals:
  "original_spectrum (add_viridis_menus e (add_viridis_menus e s))
     = original_spectrum (add_viridis_menus e s)"
  "original_by_chain (add_viridis_menus e (add_viridis_menus e s))
     = original_by_chain (add_viridis_menus e s)"
  "original_mol_color (add_viridis_menus e (add_viridis_menus e s))
     = original_mol_color (add_viridis_menus e s)"
  "original_color_auto (add_viridis_menus e (add_viridis_menus e s))
     = original_color_auto (add_viridis_menus e s)"
proof -
  show "original_spectrum (add_viridis_menus e (add_viridis_menus e s))
     = original_spectrum (add_viridis_menus e s)"
  proof (cases "menus_active (add_viridis_menus e s)")
    case True
    then show ?thesis by (simp add: add_viridis_menus_active)
  next
    case False
    then have "\<not> menus_active s" by (simp add: menus_active_add_viridis_menus)
    with False show ?thesis
      by (simp add: add_viridis_menus_fields keep_captured_idem)
  qed
  show "original_by_chain (add_viridis_menus e (add_viridis_menus e s))
     = original_by_chain (add_viridis_menus e s)"
  proof (cases "menus_active (add_viridis_menus e s)")
    case True
    then show ?thesis by (simp add: add_viridis_menus_active)
  next
    case False
    then have "\<not> menus_active s" "\<not> has_all_colors_list e"
      by (simp_all add: menus_active_add_viridis_menus)
    with False show ?thesis by (simp add: add_viridis_menus_fields)
  qed
  show "original_mol_color (add_viridis_menus e (add_viridis_menus e s))
     = original_mol_color (add_viridis_menus e s)"
  proof (cases "menus_active (add_viridis_menus e s)")
    case True
    then show ?thesis by (simp add: add_viridis_menus_active)
  next
    case False
    then have "\<not> menus_active s" "\<not> has_all_colors_list e"
      by (simp_all add: menus_active_add_viridis_menus)
    with False show ?thesis by (simp add: add_viridis_menus_fields)
  qed
  show "original_color_auto (add_viridis_menus e (add_viridis_menus e s))
     = original_color_auto (add_viridis_menus e s)"
  proof (cases "menus_active (add_viridis_menus e s)")
    case True
    then show ?thesis by (simp add: add_viridis_menus_active)
  next
    case False
    then have "\<not> menus_active s" "\<not> has_all_colors_list e"
      by (simp_all add: menus_active_add_viridis_menus)
    with False show ?thesis by (simp add: add_viridis_menus_fields)
  qed
qed

lemma add_viridis_menus_twice_slots:
  "cmd_spectrum (add_viridis_menus e (add_viridis_menus e s)) = cmd_spectrum (add_viridis_menus e s)"
  "menu_by_chain (add_viridis_menus e (add_viridis_menus e s)) = menu_by_chain (add_viridis_menus e s)"
  "menu_mol_color (add_viridis_menus e (add_viridis_menus e s)) = menu_mol_color (add_viridis_menus e s)"
  "menu_color_auto (add_viridis_menus e (add_viridis_menus e s)) = menu_color_auto (add_viridis_menus e s)"
  "has_viridis_menus (add_viridis_menus e (add_viridis_menus e s)) = has_viridis_menus (add_viridis_menus e s)"
proof -
  consider "menus_active s" | "\<not> menus_active s" "has_all_colors_list e"
    | "\<not> menus_active s" "\<not> has_all_colors_list e" by blast
  then have "cmd_spectrum (add_viridis_menus e (add_viridis_menus e s)) = cmd_spectrum (add_viridis_menus e s) \<and>
    menu_by_chain (add_viridis_menus e (add_viridis_menus e s)) = menu_by_chain (add_viridis_menus e s) \<and>
    menu_mol_color (add_viridis_menus e (add_viridis_menus e s)) = menu_mol_color (add_viridis_menus e s) \<and>
    menu_color_auto (add_viridis_menus e (add_viridis_menus e s)) = menu_color_auto (add_viridis_menus e s) \<and>
    has_viridis_menus (add_viridis_menus e (add_viridis_menus e s)) = has_viridis_menus (add_viridis_menus e s)"
  proof cases
    case 1
    then show ?thesis by (simp add: add_viridis_menus_active menus_active_def)
  next
    case 2
    then have "menus_active (add_viridis_menus e s)"
      by (simp add: menus_active_add_viridis_menus)
    then show ?thesis by (simp add: add_viridis_menus_active)
  next
    case 3
    then have "\<not> menus_active (add_viridis_menus e s)"
      by (simp add: menus_active_add_viridis_menus)
    with 3 show ?thesis by (simp add: add_viridis_menus_fields)
  qed
  then show
    "cmd_spectrum (add_viridis_menus e (add_viridis_menus e s)) = cmd_spectrum (add_viridis_menus e s)"
    "menu_by_chain (add_viridis_menus e (add_viridis_menus e s)) = menu_by_chain (add_viridis_menus e s)"
    "menu_mol_color (add_viridis_menus e (add_viridis_menus e s)) = menu_mol_color (add_viridis_menus e s)"
    "menu_color_auto (add_viridis_menus e (add_viridis_menus e s)) = menu_color_auto (add_viridis_menus e s)"
    "has_viridis_menus (add_viridis_menus e (add_viridis_menus e s)) = has_viridis_menus (add_viridis_menus e s)"
    by simp_all
qed

lemma remove_viridis_menus_cong:
  assumes "original_spectrum a = original_spectrum b" "original_by_chain a = original_by_chain b"
    "original_mol_color a = original_mol_color b" "original_color_auto a = original_color_auto b"
    "cmd_spectrum a = cmd_spectrum b" "menu_by_chain a = menu_by_chain b"
    "menu_mol_color a = menu_mol_color b" "menu_color_auto a = menu_color_auto b"
    "has_viridis_menus a = has_viridis_menus b"
  shows "cmd_spectrum (remove_viridis_menus e a) = cmd_spectrum (remove_viridis_menus e b)"
    and "menu_by_chain (remove_viridis_menus e a) = menu_by_chain (remove_viridis_menus e b)"
    and "menu_mol_color (remove_viridis_menus e a) = menu_mol_color (remove_viridis_menus e b)"
    and "menu_color_auto (remove_viridis_menus e a) = menu_color_auto (remove_viridis_menus e b)"
  using assms by (auto simp: remove_viridis_menus_fields menus_active_def split: option.split)

text \<open>Assigning a keyword that is not present appends it.\<close>

lemma update_absent: "k \<notin> set (map fst al) \<Longrightarrow> AList.update k v al = al @ [(k, v)]"
  by (induction al) auto

text \<open>The two ways in which \<^verbatim>\<open>viridis\<close> reaches \<^verbatim>\<open>cmd.spectrum\<close>.\<close>

lemma viridis_ok:
  "viridis call s [] kwargs = call (cmd_spectrum s) [] (AList.update ''palette'' (PStr ''viridis'') kwargs)"
  "viridis call s (x # y # rest) kwargs = call (cmd_spectrum s) (x # PStr ''viridis'' # rest) kwargs"
  by (simp_all add: viridis_def)

section \<open>Properties of the molecule colour patch\<close>

lemma is_entry_cases: "is_entry v \<Longrightarrow> \<exists>k l a. v = PList [k, l, a]"
  by (erule is_entry.elims) simp_all

lemma has_label_cases: "has_label l v \<Longrightarrow> \<exists>k a. v = PList [k, PStr l, a]"
  by (erule has_label.elims) simp_all

lemma find_auto_first:
  "p < length items \<Longrightarrow> has_label ''auto'' (items ! p) \<Longrightarrow>
   \<forall>j<p. is_entry (items ! j) \<and> \<not> has_label ''auto'' (items ! j) \<Longrightarrow>
   find_auto i items = Inr (Some (i + p))"
proof (induction items arbitrary: i p)
  case Nil
  then show ?case by simp
next
  case (Cons item items)
  show ?case
  proof (cases p)
    case 0
    with Cons.prems(2) obtain k a where "item = PList [k, PStr ''auto'', a]"
      by (auto dest: has_label_cases)
    with 0 show ?thesis by simp
  next
    case (Suc q)
    with Cons.prems(3) have "is_entry item" "\<not> has_label ''auto'' item" by auto
    then obtain k l a where item: "item = PList [k, l, a]" and l: "l \<noteq> PStr ''auto''"
      by (auto dest: is_entry_cases)
    have "find_auto (Suc i) items = Inr (Some (Suc i + q))"
    proof (rule Cons.IH)
      show "q < length items" using Cons.prems(1) Suc by simp
      show "has_label ''auto'' (items ! q)" using Cons.prems(2) Suc by simp
      show "\<forall>j<q. is_entry (items ! j) \<and> \<not> has_label ''auto'' (items ! j)"
        using Cons.prems(3) Suc by auto
    qed
    with item l Suc show ?thesis by simp
  qed
qed

lemma find_auto_entries_none:
  "\<forall>item \<in> set items. is_entry item \<and> \<not> has_label ''auto'' item \<Longrightarrow>
   find_auto i items = Inr None"
proof (induction items arbitrary: i)
  case Nil
  then show ?case by simp
next
  case (Cons item items)
  then have "is_entry item" "\<not> has_label ''auto'' item" by auto
  then obtain k l a where "item = PList [k, l, a]" "l \<noteq> PStr ''auto''"
    by (auto dest: is_entry_cases)
  with Cons show ?case by simp
qed

lemma unpack3_auto: "unpack3 item = Inr (k, PStr ''auto'', a) \<Longrightarrow> has_label ''auto'' item"
  by (erule unpack3.elims) simp_all

lemma find_auto_not_found:
  "\<forall>item \<in> set items. \<not> has_label ''auto'' item \<Longrightarrow> find_auto i items \<noteq> Inr (Some p)"
proof (induction items arbitrary: i)
  case Nil
  then show ?case by simp
next
  case (Cons item items)
  then have no: "\<not> has_label ''auto'' item" and rest: "find_auto (Suc i) items \<noteq> Inr (Some p)"
    by auto
  show ?case
  proof (cases "unpack3 item")
    case (Inl err)
    then show ?thesis by simp
  next
    case (Inr triple)
    obtain k t a where triple: "triple = (k, t, a)" by (cases triple)
    with Inr no have "t \<noteq> PStr ''auto''" by (auto dest: unpack3_auto)
    with Inr triple rest show ?thesis by simp
  qed
qed

lemma py_insert_before:
  assumes "0 < p" and "p \<le> length xs"
  shows "py_insert (int p - 1) x xs = take (p - 1) xs @ x # drop (p - 1) xs"
proof -
  from assms have idx: "int p - 1 = int (p - 1)" by simp
  from assms have le: "p - 1 \<le> length xs" by simp
  have "py_insert (int (p - 1)) x xs = take (p - 1) xs @ x # drop (p - 1) xs"
    using le by (simp add: py_insert_def Let_def min_def del: of_nat_diff)
  then show ?thesis by (simp only: idx)
qed

lemma viridis_menu_total: "\<exists>vm. viridis_menu e self_cmd sele = Inr vm"
  by (simp add: viridis_menu_def colorize_text_escaped)

lemma mol_color_patch_found:
  assumes "original_mol_color s = Some f"
      and "call f self_cmd sele = Inr items"
      and "find_auto 0 items = Inr (Some i)"
      and "colorize_text ''viridis'' viridis8_rgb = Inr viridis_col"
      and "viridis_menu e self_cmd sele = Inr vm"
  shows "mol_color_patch e call s self_cmd sele
           = Inr (py_insert (int i - 1) (submenu 1 viridis_col vm) items)"
  using assms by (simp add: mol_color_patch_def)

lemma add_viridis_menus_example:
  assumes "s = example_state\<lparr>menu_mol_color := m\<rparr>"
  shows "original_mol_color (add_viridis_menus example_env s) = Some m"
    and "menu_mol_color (add_viridis_menus example_env s) = MolColorPatch"
proof -
  have inactive: "\<not> menus_active s"
    by (simp add: assms menus_active_def example_state_def)
  have c: "has_all_colors_list example_env"
    by (simp add: example_env_def)
  show "original_mol_color (add_viridis_menus example_env s) = Some m"
    using c by (simp add: add_viridis_menus_fields [OF inactive]) (simp add: assms example_state_def)
  show "menu_mol_color (add_viridis_menus example_env s) = MolColorPatch"
    using c by (simp add: add_viridis_menus_fields [OF inactive])
qed

lemma call_menu_host:
  "call_menu (Suc n) e s (HostMenu h) self_cmd sele = host_menu e h self_cmd sele"
  by simp

lemma call_menu_mol_color_patch:
  "call_menu (Suc n) e s MolColorPatch self_cmd sele
     = mol_color_patch e (call_menu n e s) s self_cmd sele"
  by simp

section \<open>Claim C1: the default palette of the wrapped spectrum command\<close>

text \<open>
  C1. After \<^verbatim>\<open>add_viridis_menus\<close> on an unpatched state whose spectrum slot holds the
  host's command \<open>h\<close>, the slot holds the wrapper and \<open>h\<close> is the captured original.
  Calling the slot with fewer than two positional arguments and no keyword
  \<^verbatim>\<open>palette\<close> makes \<open>h\<close> receive the caller's arguments with the keyword
  \<^verbatim>\<open>palette = 'turbo'\<close> appended; calling it with a second positional argument or with a
  keyword \<^verbatim>\<open>palette\<close> makes \<open>h\<close> receive exactly the caller's arguments. (The call depth
  \<open>Suc (Suc n)\<close> is any depth that admits the two nested calls.)
\<close>

theorem spectrum_wrapper_default_palette:
  assumes "unpatched s" and "cmd_spectrum s = HostSpectrum h"
  shows "cmd_spectrum (add_viridis_menus e s) = SpectrumWrapper \<and>
         original_spectrum (add_viridis_menus e s) = Some (HostSpectrum h) \<and>
         (length args < 2 \<and> ''palette'' \<notin> set (map fst kwargs) \<longrightarrow>
            call_spectrum (Suc (Suc n)) (add_viridis_menus e s)
              (cmd_spectrum (add_viridis_menus e s)) args kwargs
            = Inr (Invocation h args (kwargs @ [(''palette'', PStr ''turbo'')]))) \<and>
         (2 \<le> length args \<or> ''palette'' \<in> set (map fst kwargs) \<longrightarrow>
            call_spectrum (Suc (Suc n)) (add_viridis_menus e s)
              (cmd_spectrum (add_viridis_menus e s)) args kwargs
            = Inr (Invocation h args kwargs))"
proof -
  from assms have inactive: "\<not> menus_active s" and none: "original_spectrum s = None"
    by (simp_all add: unpatched_def)
  have slot: "cmd_spectrum (add_viridis_menus e s) = SpectrumWrapper"
    and orig: "original_spectrum (add_viridis_menus e s) = Some (HostSpectrum h)"
    using assms(2) none by (simp_all add: add_viridis_menus_fields [OF inactive])
  have "call_spectrum (Suc (Suc n)) (add_viridis_menus e s) SpectrumWrapper args kwargs
          = Inr (Invocation h args (kwargs @ [(''palette'', PStr ''turbo'')]))"
    if "length args < 2" "''palette'' \<notin> set (map fst kwargs)"
    using that orig by (simp add: spectrum_wrapper_def update_absent)
  moreover have "call_spectrum (Suc (Suc n)) (add_viridis_menus e s) SpectrumWrapper args kwargs
          = Inr (Invocation h args kwargs)"
    if "2 \<le> length args \<or> ''palette'' \<in> set (map fst kwargs)"
    using that orig by (auto simp: spectrum_wrapper_def)
  ultimately show ?thesis using slot orig by simp
qed

theorem spectrum_wrapper_default_palette_witness:
  "unpatched example_state \<and> cmd_spectrum example_state = HostSpectrum 0 \<and>
   call_spectrum 2 (add_viridis_menus example_env example_state)
       (cmd_spectrum (add_viridis_menus example_env example_state))
       [PStr ''count''] [(''selection'', PStr ''all'')]
     = Inr (Invocation 0 [PStr ''count'']
              [(''selection'', PStr ''all''), (''palette'', PStr ''turbo'')]) \<and>
   call_spectrum 2 (add_viridis_menus example_env example_state)
       (cmd_spectrum (add_viridis_menus example_env example_state))
       [PStr ''count''] [(''palette'', PStr ''X'')]
     = Inr (Invocation 0 [PStr ''count''] [(''palette'', PStr ''X'')]) \<and>
   call_spectrum 2 (add_viridis_menus example_env example_state)
       (cmd_spectrum (add_viridis_menus example_env example_state))
       [PStr ''count'', PStr ''X''] []
     = Inr (Invocation 0 [PStr ''count'', PStr ''X''] [])"
proof -
  have u: "unpatched example_state"
    by (simp add: unpatched_def menus_active_def example_state_def)
  have c: "cmd_spectrum example_state = HostSpectrum 0"
    by (simp add: example_state_def)
  have two: "(2::nat) = Suc (Suc 0)" by simp
  have injected:
    "call_spectrum (Suc (Suc 0)) (add_viridis_menus example_env example_state)
       (cmd_spectrum (add_viridis_menus example_env example_state))
       [PStr ''count''] [(''selection'', PStr ''all'')]
     = Inr (Invocation 0 [PStr ''count'']
              [(''selection'', PStr ''all''), (''palette'', PStr ''turbo'')])"
    using spectrum_wrapper_default_palette [OF u c, where e = example_env and n = 0
        and args = "[PStr ''count'']" and kwargs = "[(''selection'', PStr ''all'')]"]
    by (auto simp del: call_spectrum.simps)
  have keyword:
    "call_spectrum (Suc (Suc 0)) (add_viridis_menus example_env example_state)
       (cmd_spectrum (add_viridis_menus example_env example_state))
       [PStr ''count''] [(''palette'', PStr ''X'')]
     = Inr (Invocation 0 [PStr ''count''] [(''palette'', PStr ''X'')])"
    using spectrum_wrapper_default_palette [OF u c, where e = example_env and n = 0
        and args = "[PStr ''count'']" and kwargs = "[(''palette'', PStr ''X'')]"]
    by (auto simp del: call_spectrum.simps)
  have positional:
    "call_spectrum (Suc (Suc 0)) (add_viridis_menus example_env example_state)
       (cmd_spectrum (add_viridis_menus example_env example_state))
       [PStr ''count'', PStr ''X''] []
     = Inr (Invocation 0 [PStr ''count'', PStr ''X''] [])"
    using spectrum_wrapper_default_palette [OF u c, where e = example_env and n = 0
        and args = "[PStr ''count'', PStr ''X'']" and kwargs = "[]"]
    by (auto simp del: call_spectrum.simps)
  show ?thesis
    unfolding two using u c injected keyword positional by (simp del: call_spectrum.simps)
qed

section \<open>Claim C2: the command viridis\<close>

text \<open>
  C2. The claim is that \<^verbatim>\<open>viridis\<close> forwards to the spectrum command with the palette
  forced to \<^verbatim>\<open>viridis\<close> for every combination of arguments. With exactly one positional
  argument the source takes the branch \<^verbatim>\<open>len(args) >= 1\<close> and assigns
  \<^verbatim>\<open>args_list[1]\<close>, an index the list does not have: the command raises
  \<^verbatim>\<open>IndexError\<close> and the spectrum command is never called, whatever the slot holds and
  whatever keywords were given.
\<close>

theorem viridis_one_positional_argument:
  "viridis call s [x] kwargs = Inl IndexError"
  by (simp add: viridis_def)

section \<open>Claim C3: removing after adding restores the host\<close>

text \<open>
  C3. From a state in which nothing is captured and the menus are not marked as patched,
  \<^verbatim>\<open>add_viridis_menus\<close> followed by \<^verbatim>\<open>remove_viridis_menus\<close> leaves in the spectrum slot
  and in the three menu slots the very function objects they held before, leaves the test
  of the activation flag false (the attribute is \<^verbatim>\<open>False\<close> when the host is recent enough
  for the menus, and as it was otherwise), and leaves nothing captured.
\<close>

theorem remove_after_add_restores:
  assumes "unpatched s"
  shows "cmd_spectrum (remove_viridis_menus e (add_viridis_menus e s)) = cmd_spectrum s \<and>
         menu_by_chain (remove_viridis_menus e (add_viridis_menus e s)) = menu_by_chain s \<and>
         menu_mol_color (remove_viridis_menus e (add_viridis_menus e s)) = menu_mol_color s \<and>
         menu_color_auto (remove_viridis_menus e (add_viridis_menus e s)) = menu_color_auto s \<and>
         \<not> menus_active (remove_viridis_menus e (add_viridis_menus e s)) \<and>
         (has_all_colors_list e \<longrightarrow>
            has_viridis_menus (remove_viridis_menus e (add_viridis_menus e s)) = Some False) \<and>
         unpatched (remove_viridis_menus e (add_viridis_menus e s))"
proof -
  from assms have inactive: "\<not> menus_active s"
    and none: "original_spectrum s = None" "original_by_chain s = None"
      "original_mol_color s = None" "original_color_auto s = None"
    by (simp_all add: unpatched_def)
  note added = add_viridis_menus_fields [OF inactive, of e]
  show ?thesis
    using inactive
    by (simp add: remove_viridis_menus_fields added none unpatched_def menus_active_def)
qed

theorem remove_after_add_restores_witness:
  "unpatched example_state \<and> has_all_colors_list example_env \<and>
   cmd_spectrum (add_viridis_menus example_env example_state) = SpectrumWrapper \<and>
   menu_mol_color (add_viridis_menus example_env example_state) = MolColorPatch \<and>
   cmd_spectrum (remove_viridis_menus example_env (add_viridis_menus example_env example_state))
     = HostSpectrum 0 \<and>
   menu_by_chain (remove_viridis_menus example_env (add_viridis_menus example_env example_state))
     = HostMenu 0 \<and>
   menu_mol_color (remove_viridis_menus example_env (add_viridis_menus example_env example_state))
     = HostMenu 1 \<and>
   menu_color_auto (remove_viridis_menus example_env (add_viridis_menus example_env example_state))
     = HostMenu 2 \<and>
   has_viridis_menus (remove_viridis_menus example_env (add_viridis_menus example_env example_state))
     = Some False"
proof -
  have u: "unpatched example_state"
    by (simp add: unpatched_def menus_active_def example_state_def)
  have inactive: "\<not> menus_active example_state"
    by (simp add: menus_active_def example_state_def)
  have c: "has_all_colors_list example_env"
    by (simp add: example_env_def)
  show ?thesis
    using u c remove_after_add_restores [OF u, of example_env]
      add_viridis_menus_fields [OF inactive, of example_env]
    by (simp add: example_state_def)
qed

section \<open>Claim C4: activating twice keeps the captured originals\<close>

text \<open>
  C4. An original that is already captured is never replaced: \<^verbatim>\<open>patch_spectrum\<close> and
  \<^verbatim>\<open>add_viridis_menus\<close> keep every captured original that is not \<^verbatim>\<open>None\<close>, in any
  state, so a second call in a row changes none of the four captured originals. Starting
  from an unpatched state, the originals held after two calls are the function objects the
  slots held before the first call (never a wrapper installed by the first call), and
  unpatching or removing after the two calls puts them back into the slots.
\<close>

theorem double_activation_keeps_originals:
  "(original_spectrum s = Some f \<longrightarrow>
      original_spectrum (patch_spectrum s) = Some f \<and>
      original_spectrum (add_viridis_menus e s) = Some f) \<and>
   (original_by_chain s = Some g \<longrightarrow> original_by_chain (add_viridis_menus e s) = Some g) \<and>
   (original_mol_color s = Some h \<longrightarrow> original_mol_color (add_viridis_menus e s) = Some h) \<and>
   (original_color_auto s = Some k \<longrightarrow> original_color_auto (add_viridis_menus e s) = Some k) \<and>
   original_spectrum (patch_spectrum (patch_spectrum s)) = original_spectrum (patch_spectrum s) \<and>
   original_spectrum (add_viridis_menus e (add_viridis_menus e s))
     = original_spectrum (add_viridis_menus e s) \<and>
   original_by_chain (add_viridis_menus e (add_viridis_menus e s))
     = original_by_chain (add_viridis_menus e s) \<and>
   original_mol_color (add_viridis_menus e (add_viridis_menus e s))
     = original_mol_color (add_viridis_menus e s) \<and>
   original_color_auto (add_viridis_menus e (add_viridis_menus e s))
     = original_color_auto (add_viridis_menus e s) \<and>
   (unpatched s \<longrightarrow>
      original_spectrum (patch_spectrum (patch_spectrum s)) = Some (cmd_spectrum s) \<and>
      cmd_spectrum (unpatch_spectrum (patch_spectrum (patch_spectrum s))) = cmd_spectrum s \<and>
      original_spectrum (add_viridis_menus e (add_viridis_menus e s)) = Some (cmd_spectrum s) \<and>
      (has_all_colors_list e \<longrightarrow>
         original_by_chain (add_viridis_menus e (add_viridis_menus e s)) = Some (menu_by_chain s) \<and>
         original_mol_color (add_viridis_menus e (add_viridis_menus e s)) = Some (menu_mol_color s) \<and>
         original_color_auto (add_viridis_menus e (add_viridis_menus e s))
           = Some (menu_color_auto s)) \<and>
      cmd_spectrum (remove_viridis_menus e (add_viridis_menus e (add_viridis_menus e s)))
        = cmd_spectrum s \<and>
      menu_by_chain (remove_viridis_menus e (add_viridis_menus e (add_viridis_menus e s)))
        = menu_by_chain s \<and>
      menu_mol_color (remove_viridis_menus e (add_viridis_menus e (add_viridis_menus e s)))
        = menu_mol_color s \<and>
      menu_color_auto (remove_viridis_menus e (add_viridis_menus e (add_viridis_menus e s)))
        = menu_color_auto s)"
proof -
  have kept: "original_spectrum s = Some f \<longrightarrow>
      original_spectrum (patch_spectrum s) = Some f \<and>
      original_spectrum (add_viridis_menus e s) = Some f"
    by (simp add: add_viridis_menus_originals_kept)
  have kept_menus:
    "original_by_chain s = Some g \<longrightarrow> original_by_chain (add_viridis_menus e s) = Some g"
    "original_mol_color s = Some h \<longrightarrow> original_mol_color (add_viridis_menus e s) = Some h"
    "original_color_auto s = Some k \<longrightarrow> original_color_auto (add_viridis_menus e s) = Some k"
    by (simp_all add: add_viridis_menus_originals_kept)
  have twice_patch:
    "original_spectrum (patch_spectrum (patch_spectrum s)) = original_spectrum (patch_spectrum s)"
    by (simp add: keep_captured_idem)
  note twice = add_viridis_menus_twice_originals [of e s]
  have fresh: "original_spectrum (patch_spectrum (patch_spectrum s)) = Some (cmd_spectrum s) \<and>
      cmd_spectrum (unpatch_spectrum (patch_spectrum (patch_spectrum s))) = cmd_spectrum s \<and>
      original_spectrum (add_viridis_menus e (add_viridis_menus e s)) = Some (cmd_spectrum s) \<and>
      (has_all_colors_list e \<longrightarrow>
         original_by_chain (add_viridis_menus e (add_viridis_menus e s)) = Some (menu_by_chain s) \<and>
         original_mol_color (add_viridis_menus e (add_viridis_menus e s)) = Some (menu_mol_color s) \<and>
         original_color_auto (add_viridis_menus e (add_viridis_menus e s))
           = Some (menu_color_auto s)) \<and>
      cmd_spectrum (remove_viridis_menus e (add_viridis_menus e (add_viridis_menus e s)))
        = cmd_spectrum s \<and>
      menu_by_chain (remove_viridis_menus e (add_viridis_menus e (add_viridis_menus e s)))
        = menu_by_chain s \<and>
      menu_mol_color (remove_viridis_menus e (add_viridis_menus e (add_viridis_menus e s)))
        = menu_mol_color s \<and>
      menu_color_auto (remove_viridis_menus e (add_viridis_menus e (add_viridis_menus e s)))
        = menu_color_auto s"
    if u: "unpatched s"
  proof -
    from u have inactive: "\<not> menus_active s"
      and none: "original_spectrum s = None" "original_by_chain s = None"
        "original_mol_color s = None" "original_color_auto s = None"
      by (simp_all add: unpatched_def)
    note once = add_viridis_menus_fields [OF inactive, of e]
    have restored:
      "cmd_spectrum (remove_viridis_menus e (add_viridis_menus e (add_viridis_menus e s)))
         = cmd_spectrum (remove_viridis_menus e (add_viridis_menus e s))"
      "menu_by_chain (remove_viridis_menus e (add_viridis_menus e (add_viridis_menus e s)))
         = menu_by_chain (remove_viridis_menus e (add_viridis_menus e s))"
      "menu_mol_color (remove_viridis_menus e (add_viridis_menus e (add_viridis_menus e s)))
         = menu_mol_color (remove_viridis_menus e (add_viridis_menus e s))"
      "menu_color_auto (remove_viridis_menus e (add_viridis_menus e (add_viridis_menus e s)))
         = menu_color_auto (remove_viridis_menus e (add_viridis_menus e s))"
      by (rule remove_viridis_menus_cong
            [OF add_viridis_menus_twice_originals add_viridis_menus_twice_slots])+
    have single:
      "cmd_spectrum (remove_viridis_menus e (add_viridis_menus e s)) = cmd_spectrum s"
      "menu_by_chain (remove_viridis_menus e (add_viridis_menus e s)) = menu_by_chain s"
      "menu_mol_color (remove_viridis_menus e (add_viridis_menus e s)) = menu_mol_color s"
      "menu_color_auto (remove_viridis_menus e (add_viridis_menus e s)) = menu_color_auto s"
      using inactive by (simp_all add: remove_viridis_menus_fields once none menus_active_def)
    show ?thesis
      by (simp add: twice once none restored single)
  qed
  from kept kept_menus twice_patch twice fresh show ?thesis by blast
qed

theorem double_activation_keeps_originals_witness:
  "unpatched example_state \<and> has_all_colors_list example_env \<and>
   original_spectrum (add_viridis_menus example_env example_state) = Some (HostSpectrum 0) \<and>
   original_by_chain (add_viridis_menus example_env example_state) = Some (HostMenu 0) \<and>
   original_mol_color (add_viridis_menus example_env example_state) = Some (HostMenu 1) \<and>
   original_color_auto (add_viridis_menus example_env example_state) = Some (HostMenu 2) \<and>
   original_spectrum (patch_spectrum (add_viridis_menus example_env example_state))
     = Some (HostSpectrum 0) \<and>
   original_spectrum (add_viridis_menus example_env (add_viridis_menus example_env example_state))
     = Some (HostSpectrum 0) \<and>
   original_by_chain (add_viridis_menus example_env (add_viridis_menus example_env example_state))
     = Some (HostMenu 0) \<and>
   original_mol_color (add_viridis_menus example_env (add_viridis_menus example_env example_state))
     = Some (HostMenu 1) \<and>
   original_color_auto (add_viridis_menus example_env (add_viridis_menus example_env example_state))
     = Some (HostMenu 2) \<and>
   menu_mol_color (remove_viridis_menus example_env
       (add_viridis_menus example_env (add_viridis_menus example_env example_state)))
     = HostMenu 1"
proof -
  have u: "unpatched example_state"
    by (simp add: unpatched_def menus_active_def example_state_def)
  have inactive: "\<not> menus_active example_state"
    by (simp add: menus_active_def example_state_def)
  have c: "has_all_colors_list example_env"
    by (simp add: example_env_def)
  note once = add_viridis_menus_fields [OF inactive, of example_env]
  have captured:
    "original_spectrum (add_viridis_menus example_env example_state) = Some (HostSpectrum 0)"
    "original_by_chain (add_viridis_menus example_env example_state) = Some (HostMenu 0)"
    "original_mol_color (add_viridis_menus example_env example_state) = Some (HostMenu 1)"
    "original_color_auto (add_viridis_menus example_env example_state) = Some (HostMenu 2)"
    using c by (simp_all add: once) (simp_all add: example_state_def)
  have slots: "menu_mol_color example_state = HostMenu 1"
    by (simp add: example_state_def)
  show ?thesis
    using u c captured slots
      double_activation_keeps_originals
        [where s = "add_viridis_menus example_env example_state" and e = example_env
           and f = "HostSpectrum 0" and g = "HostMenu 0" and h = "HostMenu 1"
           and k = "HostMenu 2"]
      double_activation_keeps_originals
        [where s = example_state and e = example_env]
    by simp
qed

section \<open>Claim C5: where the viridis submenu is inserted\<close>

text \<open>
  C5. When the first entry labelled \<^verbatim>\<open>auto\<close> of the original molecule colour menu is at
  position \<open>p\<close> with \<open>p\<close> at least 1, and the entries before it are well-formed entries
  with other labels, the patched builder returns the original entries, in their order, with
  one new entry, the viridis submenu, inserted at index \<open>p - 1\<close>: the new entry comes
  before the entry that precedes \<^verbatim>\<open>auto\<close>, so one original entry stays between the new
  entry and \<^verbatim>\<open>auto\<close>.
\<close>

theorem mol_color_patch_inserts:
  assumes "original_mol_color s = Some f"
      and "call f self_cmd sele = Inr items"
      and "p < length items"
      and "has_label ''auto'' (items ! p)"
      and "\<forall>j<p. is_entry (items ! j) \<and> \<not> has_label ''auto'' (items ! j)"
      and "0 < p"
  shows "\<exists>viridis_col vm.
           colorize_text ''viridis'' viridis8_rgb = Inr viridis_col \<and>
           viridis_menu e self_cmd sele = Inr vm \<and>
           mol_color_patch e call s self_cmd sele
             = Inr (take (p - 1) items @ submenu 1 viridis_col vm # drop (p - 1) items)"
proof -
  obtain viridis_col where col: "colorize_text ''viridis'' viridis8_rgb = Inr viridis_col"
    using colorize_text_total by blast
  obtain vm where vm: "viridis_menu e self_cmd sele = Inr vm"
    using viridis_menu_total by blast
  have found: "find_auto 0 items = Inr (Some p)"
    using find_auto_first [OF assms(3,4,5), of 0] by simp
  have "mol_color_patch e call s self_cmd sele
          = Inr (py_insert (int p - 1) (submenu 1 viridis_col vm) items)"
    using assms(1,2) found col vm by (rule mol_color_patch_found)
  also have "py_insert (int p - 1) (submenu 1 viridis_col vm) items
          = take (p - 1) items @ submenu 1 viridis_col vm # drop (p - 1) items"
    using assms(3,6) by (simp add: py_insert_before)
  finally show ?thesis using col vm by blast
qed

theorem mol_color_patch_inserts_witness:
  "original_mol_color (add_viridis_menus example_env example_state) = Some (HostMenu 1) \<and>
   call_menu 1 example_env (add_viridis_menus example_env example_state) (HostMenu 1) 0 ''all''
     = Inr [entry 2 ''Color:'' '''', entry 0 '''' '''', entry 1 ''auto'' ''''] \<and>
   has_label ''auto'' ([entry 2 ''Color:'' '''', entry 0 '''' '''', entry 1 ''auto'' ''''] ! 2) \<and>
   is_entry ([entry 2 ''Color:'' '''', entry 0 '''' '''', entry 1 ''auto'' ''''] ! 0) \<and>
   \<not> has_label ''auto'' ([entry 2 ''Color:'' '''', entry 0 '''' '''', entry 1 ''auto'' ''''] ! 0) \<and>
   is_entry ([entry 2 ''Color:'' '''', entry 0 '''' '''', entry 1 ''auto'' ''''] ! 1) \<and>
   \<not> has_label ''auto'' ([entry 2 ''Color:'' '''', entry 0 '''' '''', entry 1 ''auto'' ''''] ! 1) \<and>
   (\<exists>viridis_col vm.
      colorize_text ''viridis'' viridis8_rgb = Inr viridis_col \<and>
      viridis_menu example_env 0 ''all'' = Inr vm \<and>
      mol_color_patch example_env
          (call_menu 1 example_env (add_viridis_menus example_env example_state))
          (add_viridis_menus example_env example_state) 0 ''all''
        = Inr [entry 2 ''Color:'' '''', submenu 1 viridis_col vm, entry 0 '''' '''',
               entry 1 ''auto'' ''''])"
proof -
  let ?s = "add_viridis_menus example_env example_state"
  let ?items = "[entry 2 ''Color:'' '''', entry 0 '''' '''', entry 1 ''auto'' '''']"
  have orig: "original_mol_color ?s = Some (HostMenu 1)"
    using add_viridis_menus_example(1) [of example_state "HostMenu 1"]
    by (simp add: example_state_def)
  have one: "(1::nat) = Suc 0" by simp
  have called: "call_menu 1 example_env ?s (HostMenu 1) 0 ''all'' = Inr ?items"
    unfolding one call_menu_host by (simp add: example_env_def example_host_menu_def)
  have len: "2 < length ?items" by simp
  have auto: "has_label ''auto'' (?items ! 2)" by simp
  have before: "\<forall>j<2. is_entry (?items ! j) \<and> \<not> has_label ''auto'' (?items ! j)"
    by (simp add: less_Suc_eq numeral_2_eq_2)
  have pos: "0 < (2::nat)" by simp
  from mol_color_patch_inserts
         [where s = ?s and f = "HostMenu 1" and call = "call_menu 1 example_env ?s"
            and self_cmd = 0 and sele = "''all''" and items = ?items and p = 2
            and e = example_env,
          OF orig called len auto before pos]
  obtain viridis_col vm where
    "colorize_text ''viridis'' viridis8_rgb = Inr viridis_col"
    "viridis_menu example_env 0 ''all'' = Inr vm"
    "mol_color_patch example_env (call_menu 1 example_env ?s) ?s 0 ''all''
       = Inr (take (2 - 1) ?items @ submenu 1 viridis_col vm # drop (2 - 1) ?items)"
    by blast
  then have "\<exists>viridis_col vm.
      colorize_text ''viridis'' viridis8_rgb = Inr viridis_col \<and>
      viridis_menu example_env 0 ''all'' = Inr vm \<and>
      mol_color_patch example_env (call_menu 1 example_env ?s) ?s 0 ''all''
        = Inr [entry 2 ''Color:'' '''', submenu 1 viridis_col vm, entry 0 '''' '''',
               entry 1 ''auto'' '''']"
    by simp
  with orig called show ?thesis by simp
qed

text \<open>
  The new entry is not immediately before \<^verbatim>\<open>auto\<close>. On the example host, whose menu is
  a header, a separator and \<^verbatim>\<open>auto\<close>, the patched slot returns four entries: the header,
  then the new entry, then the separator and \<^verbatim>\<open>auto\<close> as the last two.
\<close>

theorem mol_color_patch_not_adjacent_counterexample:
  "map_sum id length
     (call_menu 2 example_env (add_viridis_menus example_env example_state)
        (menu_mol_color (add_viridis_menus example_env example_state)) 0 ''all'')
     = Inr 4 \<and>
   map_sum id (drop 2)
     (call_menu 2 example_env (add_viridis_menus example_env example_state)
        (menu_mol_color (add_viridis_menus example_env example_state)) 0 ''all'')
     = Inr [entry 0 '''' '''', entry 1 ''auto'' ''''] \<and>
   map_sum id (take 1)
     (call_menu 2 example_env (add_viridis_menus example_env example_state)
        (menu_mol_color (add_viridis_menus example_env example_state)) 0 ''all'')
     = Inr [entry 2 ''Color:'' '''']"
proof -
  let ?s = "add_viridis_menus example_env example_state"
  let ?items = "[entry 2 ''Color:'' '''', entry 0 '''' '''', entry 1 ''auto'' '''']"
  have orig: "original_mol_color ?s = Some (HostMenu 1)"
    and slot: "menu_mol_color ?s = MolColorPatch"
    using add_viridis_menus_example [of example_state "HostMenu 1"]
    by (simp_all add: example_state_def)
  have two: "(2::nat) = Suc (Suc 0)" by simp
  have called: "call_menu (Suc 0) example_env ?s (HostMenu 1) 0 ''all'' = Inr ?items"
    unfolding call_menu_host by (simp add: example_env_def example_host_menu_def)
  have found: "find_auto 0 ?items = Inr (Some 2)" by simp
  obtain viridis_col where col: "colorize_text ''viridis'' viridis8_rgb = Inr viridis_col"
    using colorize_text_total by blast
  obtain vm where vm: "viridis_menu example_env 0 ''all'' = Inr vm"
    using viridis_menu_total by blast
  have "call_menu 2 example_env ?s (menu_mol_color ?s) 0 ''all''
          = mol_color_patch example_env (call_menu (Suc 0) example_env ?s) ?s 0 ''all''"
    unfolding slot two call_menu_mol_color_patch ..
  also have "\<dots> = Inr (py_insert (int 2 - 1) (submenu 1 viridis_col vm) ?items)"
    by (rule mol_color_patch_found
          [where f = "HostMenu 1" and items = ?items
             and call = "call_menu (Suc 0) example_env ?s" and s = ?s and self_cmd = 0
             and sele = "''all''",
           OF orig called found col vm])
  also have "py_insert (int 2 - 1) (submenu 1 viridis_col vm) ?items
          = [entry 2 ''Color:'' '''', submenu 1 viridis_col vm, entry 0 '''' '''',
             entry 1 ''auto'' '''']"
    by (simp add: py_insert_def)
  finally show ?thesis by simp
qed

section \<open>Claim C6: what installing the palettes leaves alone\<close>

text \<open>
  C6. \<^verbatim>\<open>add_palettes\<close> leaves unchanged every entry of the registry whose name is not a
  key of the palette table. For a name of the table it stores the formatted value of the
  table without looking at the registry, whatever was stored under that name before. The
  keys of the registry afterwards are the old keys and the keys of the table.
\<close>

theorem add_palettes_frame:
  "(P \<notin> set (map fst table) \<longrightarrow>
      palette_colors_dict (add_palettes table s) P = palette_colors_dict s P) \<and>
   (distinct (map fst table) \<and> (P, vs) \<in> set table \<longrightarrow>
      palette_colors_dict (add_palettes table s) P = Some (format_colors vs)) \<and>
   dom (palette_colors_dict (add_palettes table s))
     = dom (palette_colors_dict s) \<union> set (map fst table)"
  by (simp add: palette_dict_add_palettes store_palettes_other store_palettes_stored
      dom_store_palettes)

theorem add_palettes_frame_witness:
  "''magma'' \<notin> set (map fst example_table) \<and>
   palette_colors_dict (add_palettes example_table (example_state\<lparr>palette_colors_dict := [''magma'' \<mapsto> ''mine'']\<rparr>)) ''magma''
      = Some ''mine'' \<and>
   distinct (map fst example_table) \<and> (''viridis'', [''#440154'', ''#FDE724'']) \<in> set example_table \<and>
   palette_colors_dict (add_palettes example_table (example_state\<lparr>palette_colors_dict := [''magma'' \<mapsto> ''mine'']\<rparr>)) ''viridis''
      = Some ''0x440154 0xFDE724''"
  using add_palettes_frame [where P = "''magma''" and table = example_table
          and s = "example_state\<lparr>palette_colors_dict := [''magma'' \<mapsto> ''mine'']\<rparr>"]
        add_palettes_frame [where P = "''viridis''" and table = example_table
          and vs = "[''#440154'', ''#FDE724'']"
          and s = "example_state\<lparr>palette_colors_dict := [''magma'' \<mapsto> ''mine'']\<rparr>"]
  by (simp add: example_table_def example_state_def format_colors_def replace_char_def)

text \<open>
  An entry that exists under a name of the table is overwritten: the user's palette
  \<^verbatim>\<open>viridis\<close> of the example state is replaced by the table's.
\<close>

theorem add_palettes_overwrites_counterexample:
  "palette_colors_dict example_state ''viridis'' = Some ''custom'' \<and>
   palette_colors_dict (add_palettes example_table example_state) ''viridis''
     = Some ''0x440154 0xFDE724''"
  by (simp add: palette_dict_add_palettes example_state_def example_table_def
      format_colors_def replace_char_def)

section \<open>Claim C7: the installed values, and installing twice\<close>

text \<open>
  C7. For a palette table with distinct names (a dictionary) whose colour stops carry
  \<^verbatim>\<open>#\<close> at most as their first character, \<^verbatim>\<open>add_palettes\<close> maps every name \<open>P\<close> of the
  table to the colour stops joined by spaces with each leading \<^verbatim>\<open>#\<close> translated to
  \<^verbatim>\<open>0x\<close>; a second \<^verbatim>\<open>add_palettes\<close> leaves the whole registry as the first one left it;
  and \<^verbatim>\<open>_has_viridis_palettes\<close> holds afterwards.
\<close>

theorem add_palettes_installs:
  assumes "distinct (map fst table)"
      and "(P, vs) \<in> set table"
      and "\<forall>tok \<in> set vs. CHR ''#'' \<notin> set (tl tok)"
  shows "palette_colors_dict (add_palettes table s) P = Some (format_colors_spec vs) \<and>
         palette_colors_dict (add_palettes table (add_palettes table s))
           = palette_colors_dict (add_palettes table s) \<and>
         has_viridis_palettes (map fst table) (palette_colors_dict (add_palettes table s))"
proof (intro conjI)
  show "palette_colors_dict (add_palettes table s) P = Some (format_colors_spec vs)"
    using assms by (simp add: palette_dict_add_palettes store_palettes_stored format_colors_refines)
  show "palette_colors_dict (add_palettes table (add_palettes table s))
           = palette_colors_dict (add_palettes table s)"
    by (simp add: palette_dict_add_palettes store_palettes_idem)
  show "has_viridis_palettes (map fst table) (palette_colors_dict (add_palettes table s))"
    by (simp add: palette_dict_add_palettes has_viridis_palettes_iff dom_store_palettes)
qed

theorem add_palettes_installs_witness:
  "distinct (map fst example_table) \<and>
   (''turbo'', [''#30123B'', ''#7A0403'']) \<in> set example_table \<and>
   list_all (\<lambda>tok. CHR ''#'' \<notin> set (tl tok)) [''#30123B'', ''#7A0403''] \<and>
   palette_colors_dict (add_palettes example_table example_state) ''turbo''
     = Some ''0x30123B 0x7A0403'' \<and>
   palette_colors_dict (add_palettes example_table (add_palettes example_table example_state)) ''turbo''
     = Some ''0x30123B 0x7A0403''"
  using add_palettes_installs [where table = example_table and P = "''turbo''"
          and vs = "[''#30123B'', ''#7A0403'']" and s = example_state]
  by (simp add: example_table_def format_colors_spec_def)

section \<open>Claim C8: the length of a colourised label\<close>

text \<open>
  C8. \<^verbatim>\<open>_colorize_text\<close> returns a string for every text and every colour sequence, and
  its length is the length of the text, plus the length of the inserted escape prefixes
  (\<open>prefix_chars\<close>: a backslash and a colour code for each prefixed character), plus the
  length of the reset marker. When every colour code has three characters the prefixes add
  four characters for each prefixed character. In particular the text \<^verbatim>\<open>abc\<close> with the
  codes 100, 200, 300 gives each of the three characters its own code and ends with the
  reset marker.
\<close>

theorem colorize_text_length:
  "(\<exists>x. colorize_text text palette = Inr x \<and>
        length x = length text + prefix_chars palette text + length reset_marker) \<and>
   ((\<forall>col \<in> set palette. length col = 3) \<longrightarrow>
      prefix_chars palette text = 4 * prefixed_count palette text) \<and>
   colorize_text ''abc'' [''100'', ''200'', ''300''] =
     Inr (bslash # ''100a'' @ bslash # ''200b'' @ bslash # ''300c'' @ reset_marker)"
proof (intro conjI impI)
  show "\<exists>x. colorize_text text palette = Inr x \<and>
        length x = length text + prefix_chars palette text + length reset_marker"
    by (rule colorize_text_len)
  show "prefix_chars palette text = 4 * prefixed_count palette text"
    if "\<forall>col \<in> set palette. length col = 3"
    using that by (rule prefix_chars_three)
  show "colorize_text ''abc'' [''100'', ''200'', ''300''] =
     Inr (bslash # ''100a'' @ bslash # ''200b'' @ bslash # ''300c'' @ reset_marker)"
    by (simp add: colorize_text_def reset_marker_def)
qed

theorem colorize_text_length_witness:
  "list_all (\<lambda>col. length col = 3) [''100'', ''200''] \<and>
   colorize_text ''a(bc'' [''100'', ''200''] = Inr (bslash # ''100a'' @ bslash # ''888(bc'' @ reset_marker) \<and>
   length (bslash # ''100a'' @ bslash # ''888(bc'' @ reset_marker)
     = length ''a(bc'' + prefix_chars [''100'', ''200''] ''a(bc'' + length reset_marker \<and>
   prefix_chars [''100'', ''200''] ''a(bc'' = 4 * prefixed_count [''100'', ''200''] ''a(bc'' \<and>
   prefixed_count [''100'', ''200''] ''a(bc'' = 2"
  using colorize_text_length [of "''a(bc''" "[''100'', ''200'']"]
  by (simp add: colorize_text_def reset_marker_def prefixed_count_def prefix_chars_def)

text \<open>
  The length is not the length of the text plus the length of the reset marker: for
  \<^verbatim>\<open>abc\<close> the result has 19 characters, not 7.
\<close>

theorem colorize_text_length_counterexample:
  "colorize_text ''abc'' [''100'', ''200'', ''300''] =
     Inr (bslash # ''100a'' @ bslash # ''200b'' @ bslash # ''300c'' @ reset_marker) \<and>
   length (bslash # ''100a'' @ bslash # ''200b'' @ bslash # ''300c'' @ reset_marker)
     \<noteq> length ''abc'' + length reset_marker"
  by (simp add: colorize_text_def reset_marker_def)

section \<open>Claim C9: a molecule colour menu without the entry auto\<close>

text \<open>
  C9. When the original molecule colour menu has no entry labelled \<^verbatim>\<open>auto\<close>, the patched
  builder does not return a menu: it ends in an exception. When every item of the menu is a
  well-formed entry the exception is \<^verbatim>\<open>UnboundLocalError\<close>, raised where the unassigned
  \<^verbatim>\<open>auto_menu_idx\<close> is read; nothing is appended and the insertion is not skipped.
\<close>

theorem mol_color_patch_without_auto:
  assumes "original_mol_color s = Some f"
      and "call f self_cmd sele = Inr items"
      and "\<forall>item \<in> set items. \<not> has_label ''auto'' item"
  shows "isl (mol_color_patch e call s self_cmd sele) \<and>
         ((\<forall>item \<in> set items. is_entry item) \<longrightarrow>
            mol_color_patch e call s self_cmd sele = Inl UnboundLocalError)"
proof -
  obtain viridis_col where col: "colorize_text ''viridis'' viridis8_rgb = Inr viridis_col"
    using colorize_text_total by blast
  have unfolded: "mol_color_patch e call s self_cmd sele =
      (case find_auto 0 items of
         Inl err \<Rightarrow> Inl err
       | Inr None \<Rightarrow> Inl UnboundLocalError
       | Inr (Some i) \<Rightarrow>
           (case viridis_menu e self_cmd sele of
              Inl err \<Rightarrow> Inl err
            | Inr vm \<Rightarrow> Inr (py_insert (int i - 1) (submenu 1 viridis_col vm) items)))"
    by (simp add: mol_color_patch_def col assms(1,2) split: sum.split option.split)
  have "isl (mol_color_patch e call s self_cmd sele)"
  proof (cases "find_auto 0 items")
    case (Inl err)
    then show ?thesis by (simp add: unfolded)
  next
    case (Inr idx)
    with find_auto_not_found [OF assms(3), of 0] have "idx = None"
      by (cases idx) auto
    with Inr show ?thesis by (simp add: unfolded)
  qed
  moreover have "mol_color_patch e call s self_cmd sele = Inl UnboundLocalError"
    if "\<forall>item \<in> set items. is_entry item"
  proof -
    from that assms(3) have "find_auto 0 items = Inr None"
      by (intro find_auto_entries_none) auto
    then show ?thesis by (simp add: unfolded)
  qed
  ultimately show ?thesis by blast
qed

theorem mol_color_patch_without_auto_witness:
  "original_mol_color
     (add_viridis_menus example_env (example_state\<lparr>menu_mol_color := HostMenu 3\<rparr>))
     = Some (HostMenu 3) \<and>
   call_menu 1 example_env
     (add_viridis_menus example_env (example_state\<lparr>menu_mol_color := HostMenu 3\<rparr>))
     (HostMenu 3) 0 ''all''
     = Inr [entry 2 ''Color:'' ''''] \<and>
   list_all (\<lambda>item. \<not> has_label ''auto'' item) [entry 2 ''Color:'' ''''] \<and>
   list_all is_entry [entry 2 ''Color:'' ''''] \<and>
   mol_color_patch example_env
     (call_menu 1 example_env
        (add_viridis_menus example_env (example_state\<lparr>menu_mol_color := HostMenu 3\<rparr>)))
     (add_viridis_menus example_env (example_state\<lparr>menu_mol_color := HostMenu 3\<rparr>)) 0 ''all''
     = Inl UnboundLocalError"
proof -
  let ?s = "add_viridis_menus example_env (example_state\<lparr>menu_mol_color := HostMenu 3\<rparr>)"
  let ?items = "[entry 2 ''Color:'' '''']"
  have orig: "original_mol_color ?s = Some (HostMenu 3)"
    by (rule add_viridis_menus_example(1)) (rule refl)
  have one: "(1::nat) = Suc 0" by simp
  have called: "call_menu 1 example_env ?s (HostMenu 3) 0 ''all'' = Inr ?items"
    unfolding one call_menu_host by (simp add: example_env_def example_host_menu_def)
  have no_auto: "\<forall>item \<in> set ?items. \<not> has_label ''auto'' item" by simp
  have entries: "\<forall>item \<in> set ?items. is_entry item" by simp
  from mol_color_patch_without_auto
         [where s = ?s and f = "HostMenu 3" and call = "call_menu 1 example_env ?s"
            and self_cmd = 0 and sele = "''all''" and items = ?items and e = example_env,
          OF orig called no_auto]
       entries
  have "mol_color_patch example_env (call_menu 1 example_env ?s) ?s 0 ''all''
          = Inl UnboundLocalError"
    by blast
  with orig called show ?thesis by simp
qed

section \<open>Claim C10: a patch whose original is gone\<close>

text \<open>
  C10. Each of the three menu patches, called with any context and any selection while the
  original it would call is \<^verbatim>\<open>None\<close>, returns the empty list: it raises nothing and calls
  no function object.
\<close>

theorem patches_without_original:
  "(original_by_chain s = None \<longrightarrow> by_chain_patch call s self_cmd sele = Inr []) \<and>
   (original_mol_color s = None \<longrightarrow> mol_color_patch e call s self_cmd sele = Inr []) \<and>
   (original_color_auto s = None \<longrightarrow> color_auto_patch call s self_cmd sele = Inr [])"
  by (simp add: by_chain_patch_def mol_color_patch_def color_auto_patch_def
      colorize_text_escaped)

theorem patches_without_original_witness:
  "original_by_chain example_state = None \<and>
   original_mol_color example_state = None \<and>
   original_color_auto example_state = None \<and>
   by_chain_patch (call_menu 1 example_env example_state) example_state 0 ''all'' = Inr [] \<and>
   mol_color_patch example_env (call_menu 1 example_env example_state) example_state 0 ''all''
     = Inr [] \<and>
   color_auto_patch (call_menu 1 example_env example_state) example_state 0 ''all'' = Inr [] \<and>
   call_menu 1 example_env example_state ByChainPatch 0 ''all'' = Inr []"
proof -
  have none: "original_by_chain example_state = None"
    "original_mol_color example_state = None"
    "original_color_auto example_state = None"
    by (simp_all add: example_state_def)
  have one: "(1::nat) = Suc 0" by simp
  have "call_menu 1 example_env example_state ByChainPatch 0 ''all''
          = by_chain_patch (call_menu 0 example_env example_state) example_state 0 ''all''"
    unfolding one by simp
  then show ?thesis
    using none
      patches_without_original [where s = example_state and e = example_env and self_cmd = 0
        and sele = "''all''" and call = "call_menu 1 example_env example_state"]
      patches_without_original [where s = example_state and e = example_env and self_cmd = 0
        and sele = "''all''" and call = "call_menu 0 example_env example_state"]
    by simp
qed

end
